theory Spec2Isabelle
  imports Complex_Main "HOL-Library.Char_ord" "HOL-Library.List_Lexorder"
begin

section \<open>Data model of app.py\<close>

text \<open>
  The tables of app.py are lists of rows, a row is a record with the columns of its
  model class. Python integers are \<open>int\<close>. The columns of type Float (Product.price,
  Sale.total_amount, SaleItem.price_at_sale) have the abstract type \<open>'f\<close>: the program
  only converts an integer to a float, multiplies, adds and rounds to two places, and
  these four operations are the fields of \<open>float_ops\<close>. Every theorem below holds for
  any choice of them, IEEE doubles included.
\<close>

record 'f float_ops =
  f_of_int :: "int \<Rightarrow> 'f"
  f_mul :: "'f \<Rightarrow> 'f \<Rightarrow> 'f"
  f_add :: "'f \<Rightarrow> 'f \<Rightarrow> 'f"
  f_round2 :: "'f \<Rightarrow> 'f"

datatype date = Date int int int

record store =
  st_id :: int
  st_name :: string
  st_location :: "string option"
  license_validity :: date

record user =
  u_id :: int
  username :: string
  password_hash :: string
  role :: string
  u_store_id :: "int option"

record 'f product =
  p_id :: int
  barcode :: "string option"
  p_name :: string
  brand :: "string option"
  category :: "string option"
  size_ml :: int
  price :: 'f
  stock_quantity :: int
  p_store_id :: int

record 'f sale =
  s_id :: int
  total_amount :: 'f
  sale_date :: nat
  s_store_id :: int

text \<open>SaleItem.id is never read by the program and is left out of the row.\<close>

record 'f sale_item =
  sale_id :: int
  product_id :: int
  quantity :: int
  price_at_sale :: 'f

record 'f db =
  stores :: "store list"
  products :: "'f product list"
  sales :: "'f sale list"
  sale_items :: "'f sale_item list"

text \<open>The dictionary that \<open>Product.to_dict\<close> builds: every column but store_id.\<close>

record 'f product_dict =
  d_id :: int
  d_barcode :: "string option"
  d_name :: string
  d_brand :: "string option"
  d_category :: "string option"
  d_size_ml :: int
  d_price :: 'f
  d_stock_quantity :: int

definition to_dict :: "'f product \<Rightarrow> 'f product_dict" where
  "to_dict p = \<lparr>d_id = p_id p, d_barcode = barcode p, d_name = p_name p, d_brand = brand p,
     d_category = category p, d_size_ml = size_ml p, d_price = price p,
     d_stock_quantity = stock_quantity p\<rparr>"

text \<open>
  Exceptions that reach a handler. \<open>IntegrityError\<close> is the NOT NULL constraint of a
  store_id column, \<open>AttributeError\<close> the read of \<open>.name\<close> on a missing store, and
  \<open>DbError\<close> any other exception of the storage layer, with its text.
\<close>

datatype exn = IntegrityError | AttributeError | DbError string

text \<open>
  What a route returns: \<open>abort(code)\<close>, a redirect to a named endpoint, a rendered page
  with its arguments, or a JSON body. \<open>Json_failure msg code\<close> is
  \<open>{'success': False, 'error': msg}\<close> with the status \<open>code\<close>; \<open>Json_exception e\<close> is
  the same body with \<open>str(e)\<close> and the status 500; \<open>Unhandled e\<close> is an exception that
  no handler of the route catches.
\<close>

datatype 'f response =
    Abort nat
  | Redirect string
  | Render_dashboard "'f product list"
  | Render_sales "'f sale list" string
  | Json_products "'f product_dict list"
  | Json_success int
  | Json_failure string nat
  | Json_exception exn
  | Unhandled exn

section \<open>Helpers of the storage layer\<close>

text \<open>\<open>str\<close> of a Python integer.\<close>

definition digit_char :: "nat \<Rightarrow> char" where
  "digit_char n = ''0123456789'' ! n"

function str_nat :: "nat \<Rightarrow> string" where
  "str_nat n = (if n < 10 then [digit_char n] else str_nat (n div 10) @ [digit_char (n mod 10)])"
  by pat_completeness auto
termination
  by (relation "measure (\<lambda>n. n)") auto

definition str_int :: "int \<Rightarrow> string" where
  "str_int i = (if i < 0 then CHR ''-'' # str_nat (nat (- i)) else str_nat (nat i))"

text \<open>An autoincrement primary key: one more than the largest key of the table.\<close>

definition next_id :: "int list \<Rightarrow> int" where
  "next_id ids = fold max ids 0 + 1"

text \<open>\<open>Product.query.filter_by(id=pid, store_id=sid).first()\<close>\<close>

definition query_product :: "'f db \<Rightarrow> int \<Rightarrow> int option \<Rightarrow> 'f product option" where
  "query_product d pid sid =
     find (\<lambda>p. p_id p = pid \<and> Some (p_store_id p) = sid) (products d)"

text \<open>The UPDATE that the session flushes for a changed stock_quantity: by primary key.\<close>

definition set_stock :: "int \<Rightarrow> int \<Rightarrow> 'f product list \<Rightarrow> 'f product list" where
  "set_stock pid v ps = map (\<lambda>p. if p_id p = pid then p\<lparr>stock_quantity := v\<rparr> else p) ps"

definition set_total :: "int \<Rightarrow> 'f \<Rightarrow> 'f sale list \<Rightarrow> 'f sale list" where
  "set_total sid v ss = map (\<lambda>s. if s_id s = sid then s\<lparr>total_amount := v\<rparr> else s) ss"

definition set_license :: "int \<Rightarrow> date \<Rightarrow> store list \<Rightarrow> store list" where
  "set_license sid v ss = map (\<lambda>s. if st_id s = sid then s\<lparr>license_validity := v\<rparr> else s) ss"

section \<open>Superadmin routes\<close>

text \<open>
  \<open>update_license\<close>: \<open>strptime\<close> stands for
  \<open>datetime.datetime.strptime(_, '%Y-%m-%d').date()\<close>, with \<open>None\<close> for ValueError;
  \<open>new_validity\<close> is \<open>request.form.get('new_validity')\<close>; \<open>commit\<close> is the exception that
  \<open>db.session.commit()\<close> raises, if any. The \<open>except\<close> clause catches ValueError only, so
  an exception of the commit leaves the route unhandled and nothing is written.
\<close>

definition update_license ::
  "(string \<Rightarrow> date option) \<Rightarrow> exn option \<Rightarrow> user \<Rightarrow> 'f db \<Rightarrow> int \<Rightarrow> string option
     \<Rightarrow> 'f db \<times> 'f response" where
  "update_license strptime commit current_user d store_id new_validity =
     (if role current_user \<noteq> ''superadmin'' then (d, Abort 403)
      else case find (\<lambda>s. st_id s = store_id) (stores d) of
        None \<Rightarrow> (d, Abort 404)
      | Some store \<Rightarrow>
          (case new_validity of
             None \<Rightarrow> (d, Redirect ''superadmin_dashboard'')
           | Some new_date_str \<Rightarrow>
               if new_date_str = [] then (d, Redirect ''superadmin_dashboard'')
               else (case strptime new_date_str of
                       None \<Rightarrow> (d, Redirect ''superadmin_dashboard'')
                     | Some new_date \<Rightarrow>
                         (case commit of
                            Some e \<Rightarrow> (d, Unhandled e)
                          | None \<Rightarrow>
                              (d\<lparr>stores := set_license (st_id store) new_date (stores d)\<rparr>,
                               Redirect ''superadmin_dashboard'')))))"

section \<open>Store routes\<close>

datatype http_method = GET | POST

text \<open>The form of the dashboard, after \<open>int(...)\<close> and \<open>float(...)\<close> have read its numbers.\<close>

record 'f product_form =
  form_name :: string
  form_brand :: string
  form_category :: string
  form_size_ml :: int
  form_price :: 'f
  form_barcode :: string
  form_stock_quantity :: int

definition dashboard ::
  "user \<Rightarrow> 'f db \<Rightarrow> http_method \<Rightarrow> 'f product_form \<Rightarrow> 'f db \<times> 'f response" where
  "dashboard current_user d method form =
     (if role current_user = ''superadmin'' then (d, Redirect ''superadmin_dashboard'')
      else if method = POST then
        (if role current_user \<noteq> ''store'' then (d, Abort 403)
         else case u_store_id current_user of
           None \<Rightarrow> (d, Unhandled IntegrityError)
         | Some st \<Rightarrow>
             (let new_product = \<lparr>p_id = next_id (map p_id (products d)),
                    barcode = Some (form_barcode form), p_name = form_name form,
                    brand = Some (form_brand form), category = Some (form_category form),
                    size_ml = form_size_ml form, price = form_price form,
                    stock_quantity = form_stock_quantity form, p_store_id = st\<rparr>
              in (d\<lparr>products := products d @ [new_product]\<rparr>, Redirect ''dashboard'')))
      else (d, Render_dashboard
                 (sort_key p_name
                    (filter (\<lambda>p. Some (p_store_id p) = u_store_id current_user) (products d)))))"

text \<open>
  \<open>update_stock\<close>: \<open>pid\<close> is \<open>request.form['product_id']\<close>, \<open>add_stock\<close> is
  \<open>int(request.form['add_stock'])\<close>, and \<open>commit\<close> is the exception that
  \<open>db.session.commit()\<close> raises, if any (the storage layer refuses a stock that does not
  fit the Integer column, or cannot write). The route has no handler, so such an exception
  leaves it unhandled and nothing is written.
\<close>

definition update_stock ::
  "exn option \<Rightarrow> user \<Rightarrow> 'f db \<Rightarrow> int \<Rightarrow> int \<Rightarrow> 'f db \<times> 'f response" where
  "update_stock commit current_user d pid add_stock =
     (if role current_user \<noteq> ''store'' then (d, Abort 403)
      else case query_product d pid (u_store_id current_user) of
        None \<Rightarrow> (d, Abort 404)
      | Some product \<Rightarrow>
          if add_stock > 0 then
            (case commit of
               Some e \<Rightarrow> (d, Unhandled e)
             | None \<Rightarrow>
                 (d\<lparr>products := set_stock (p_id product) (stock_quantity product + add_stock)
                                    (products d)\<rparr>,
                  Redirect ''dashboard''))
          else (d, Redirect ''dashboard''))"

definition sales_route :: "user \<Rightarrow> 'f db \<Rightarrow> 'f response" where
  "sales_route current_user d =
     (if role current_user \<noteq> ''admin'' then Abort 403
      else let all_sales = rev (sort_key sale_date
                 (filter (\<lambda>s. Some (s_store_id s) = u_store_id current_user) (sales d)))
           in case (case u_store_id current_user of
                      None \<Rightarrow> None
                    | Some st \<Rightarrow> find (\<lambda>s. st_id s = st) (stores d)) of
                None \<Rightarrow> Unhandled AttributeError
              | Some store \<Rightarrow> Render_sales all_sales (st_name store))"

section \<open>API endpoints\<close>

definition get_products :: "user \<Rightarrow> 'f db \<Rightarrow> 'f response" where
  "get_products current_user d =
     (if role current_user \<notin> {''store'', ''admin''} then Abort 403
      else Json_products (map to_dict
             (filter (\<lambda>p. Some (p_store_id p) = u_store_id current_user \<and> stock_quantity p > 0)
                (products d))))"

record bill_item =
  item_id :: int
  item_quantity :: int

text \<open>
  How the loop of \<open>process_bill\<close> stops early: the explicit rollback with its message
  and status 400, or an exception that the \<open>except\<close> clause catches.
\<close>

datatype bill_stop = Rejected string | Raised exn

text \<open>
  One pass of the loop body on the session \<open>s\<close> (the pending state of the transaction)
  for the new sale \<open>sid\<close>. \<open>raises i\<close> says which exception, if any, the storage layer
  raises while line \<open>i\<close> is processed.
\<close>

definition bill_line ::
  "'f float_ops \<Rightarrow> user \<Rightarrow> int \<Rightarrow> 'f db \<times> 'f \<Rightarrow> bill_item \<Rightarrow> bill_stop + ('f db \<times> 'f)" where
  "bill_line ops current_user sid st item =
     (case st of (s, tot) \<Rightarrow>
      (case query_product s (item_id item) (u_store_id current_user) of
         None \<Rightarrow> Inl (Rejected (''Not enough stock for '' @ (''ID '' @ str_int (item_id item))))
       | Some product \<Rightarrow>
           if stock_quantity product < item_quantity item
           then Inl (Rejected (''Not enough stock for '' @ p_name product))
           else Inr (s\<lparr>products := set_stock (p_id product)
                                      (stock_quantity product - item_quantity item) (products s),
                       sale_items := sale_items s @
                         [\<lparr>sale_id = sid, product_id = p_id product,
                           quantity = item_quantity item, price_at_sale = price product\<rparr>]\<rparr>,
                     f_add ops tot
                       (f_mul ops (price product) (f_of_int ops (item_quantity item))))))"

fun bill_loop ::
  "'f float_ops \<Rightarrow> (nat \<Rightarrow> exn option) \<Rightarrow> user \<Rightarrow> int \<Rightarrow> nat \<Rightarrow> 'f db \<times> 'f \<Rightarrow> bill_item list
     \<Rightarrow> bill_stop + ('f db \<times> 'f)" where
  "bill_loop ops raises current_user sid i st [] = Inr st"
| "bill_loop ops raises current_user sid i st (item # rest) =
     (case raises i of
        Some e \<Rightarrow> Inl (Raised e)
      | None \<Rightarrow>
          (case bill_line ops current_user sid st item of
             Inl stop \<Rightarrow> Inl stop
           | Inr st' \<Rightarrow> bill_loop ops raises current_user sid (Suc i) st' rest))"

text \<open>
  \<open>process_bill\<close>: \<open>now\<close> is the clock read for sale_date, \<open>raises (length bill_items)\<close>
  the exception of the commit. A rollback returns the database as it was, the commit
  returns the session.
\<close>

definition process_bill ::
  "'f float_ops \<Rightarrow> nat \<Rightarrow> (nat \<Rightarrow> exn option) \<Rightarrow> user \<Rightarrow> 'f db \<Rightarrow> bill_item list
     \<Rightarrow> 'f db \<times> 'f response" where
  "process_bill ops now raises current_user d bill_items =
     (if role current_user \<noteq> ''store'' then (d, Abort 403)
      else if bill_items = [] then (d, Json_failure ''Empty bill'' 400)
      else case u_store_id current_user of
        None \<Rightarrow> (d, Json_exception IntegrityError)
      | Some st \<Rightarrow>
          (let sid = next_id (map s_id (sales d));
               new_sale = \<lparr>s_id = sid, total_amount = f_of_int ops 0, sale_date = now,
                           s_store_id = st\<rparr>;
               s0 = d\<lparr>sales := sales d @ [new_sale]\<rparr>
           in case bill_loop ops raises current_user sid 0 (s0, f_of_int ops 0) bill_items of
                Inl (Rejected msg) \<Rightarrow> (d, Json_failure msg 400)
              | Inl (Raised e) \<Rightarrow> (d, Json_exception e)
              | Inr (s, tot) \<Rightarrow>
                  (case raises (length bill_items) of
                     Some e \<Rightarrow> (d, Json_exception e)
                   | None \<Rightarrow>
                       (s\<lparr>sales := set_total sid (f_round2 ops tot) (sales s)\<rparr>,
                        Json_success sid))))"

section \<open>What a bill asks for\<close>

text \<open>
  The quantity that the lines of a bill request of the product \<open>pid\<close>, and the product
  table with every stock lowered by what the bill requests of it.
\<close>

definition requested :: "int \<Rightarrow> bill_item list \<Rightarrow> int" where
  "requested pid items = sum_list (map item_quantity (filter (\<lambda>it. item_id it = pid) items))"

definition dec :: "bill_item list \<Rightarrow> 'f product list \<Rightarrow> 'f product list" where
  "dec items ps =
     map (\<lambda>p. p\<lparr>stock_quantity := stock_quantity p - requested (p_id p) items\<rparr>) ps"

text \<open>
  The preconditions of the lines \<open>items\<close> that follow the lines \<open>pre\<close>, read on the
  database as it is before the bill: each line names a product of the caller's store, and
  its quantity together with what the earlier lines request of that product is at most the
  product's stock.
\<close>

fun lines_ok :: "user \<Rightarrow> 'f db \<Rightarrow> bill_item list \<Rightarrow> bill_item list \<Rightarrow> bool" where
  "lines_ok u d pre [] = True"
| "lines_ok u d pre (it # rest) =
     ((case query_product d (item_id it) (u_store_id u) of
         None \<Rightarrow> False
       | Some p \<Rightarrow> requested (item_id it) pre + item_quantity it \<le> stock_quantity p)
      \<and> lines_ok u d (pre @ [it]) rest)"

text \<open>The SaleItem row of a line, with the price of the product it names.\<close>

definition sale_item_of :: "user \<Rightarrow> 'f db \<Rightarrow> int \<Rightarrow> bill_item \<Rightarrow> 'f sale_item option" where
  "sale_item_of u d sid it =
     map_option (\<lambda>p. \<lparr>sale_id = sid, product_id = p_id p, quantity = item_quantity it,
                       price_at_sale = price p\<rparr>)
       (query_product d (item_id it) (u_store_id u))"

text \<open>The sum of price_at_sale * quantity over SaleItem rows, added up in their order.\<close>

definition add_line :: "'f float_ops \<Rightarrow> 'f \<Rightarrow> 'f sale_item \<Rightarrow> 'f" where
  "add_line ops a si = f_add ops a (f_mul ops (price_at_sale si) (f_of_int ops (quantity si)))"

definition lines_total :: "'f float_ops \<Rightarrow> 'f sale_item list \<Rightarrow> 'f" where
  "lines_total ops sis = foldl (add_line ops) (f_of_int ops 0) sis"

section \<open>Exact decimal arithmetic and a small database, for running the program\<close>

definition round_half_even :: "rat \<Rightarrow> int" where
  "round_half_even x =
     (let f = \<lfloor>x\<rfloor>; r = x - of_int f
      in if r < 1 / 2 then f else if 1 / 2 < r then f + 1 else if even f then f else f + 1)"

definition exact_ops :: "rat float_ops" where
  "exact_ops = \<lparr>f_of_int = of_int, f_mul = (*), f_add = (+),
                f_round2 = (\<lambda>x. of_int (round_half_even (x * 100)) / 100)\<rparr>"

definition no_fault :: "nat \<Rightarrow> exn option" where
  "no_fault i = None"

definition till :: user where
  "till = \<lparr>u_id = 1, username = ''till'', password_hash = ''x'', role = ''store'',
            u_store_id = Some 1\<rparr>"

definition manager :: user where
  "manager = \<lparr>u_id = 2, username = ''manager'', password_hash = ''x'', role = ''admin'',
               u_store_id = Some 1\<rparr>"

definition root :: user where
  "root = \<lparr>u_id = 3, username = ''root'', password_hash = ''x'', role = ''superadmin'',
            u_store_id = None\<rparr>"

definition rum :: "rat product" where
  "rum = \<lparr>p_id = 1, barcode = None, p_name = ''Rum'', brand = None, category = None,
           size_ml = 750, price = 10, stock_quantity = 5, p_store_id = 1\<rparr>"

definition gin :: "rat product" where
  "gin = \<lparr>p_id = 2, barcode = None, p_name = ''Gin'', brand = None, category = None,
           size_ml = 700, price = 25 / 2, stock_quantity = 3, p_store_id = 1\<rparr>"

definition vodka :: "rat product" where
  "vodka = \<lparr>p_id = 3, barcode = None, p_name = ''Vodka'', brand = None, category = None,
             size_ml = 500, price = 8, stock_quantity = 4, p_store_id = 2\<rparr>"

definition shop :: "rat db" where
  "shop = \<lparr>stores = [\<lparr>st_id = 1, st_name = ''Main'', st_location = None,
                        license_validity = Date 2030 1 1\<rparr>,
                      \<lparr>st_id = 2, st_name = ''Annex'', st_location = None,
                        license_validity = Date 2030 1 1\<rparr>],
            products = [rum, gin, vodka],
            sales = [\<lparr>s_id = 1, total_amount = 16, sale_date = 100, s_store_id = 2\<rparr>],
            sale_items = [\<lparr>sale_id = 1, product_id = 3, quantity = 2, price_at_sale = 8\<rparr>]\<rparr>"

definition line :: "int \<Rightarrow> int \<Rightarrow> bill_item" where
  "line pid q = \<lparr>item_id = pid, item_quantity = q\<rparr>"

text \<open>The session of \<open>process_bill\<close> after \<open>db.session.add(new_sale)\<close>.\<close>

definition session0 :: "'f float_ops \<Rightarrow> nat \<Rightarrow> int \<Rightarrow> 'f db \<Rightarrow> 'f db" where
  "session0 ops now st d =
     d\<lparr>sales := sales d @ [\<lparr>s_id = next_id (map s_id (sales d)), total_amount = f_of_int ops 0,
                             sale_date = now, s_store_id = st\<rparr>]\<rparr>"

definition two_lines :: "bill_item list" where
  "two_lines = [line 1 3, line 2 1]"

definition three_lines :: "bill_item list" where
  "three_lines = [line 1 3, line 2 1, line 1 2]"

definition too_much :: "bill_item list" where
  "too_much = [line 1 3, line 2 4]"

definition disk_full :: "nat \<Rightarrow> exn option" where
  "disk_full i = (if i = 2 then Some (DbError ''disk full'') else None)"

definition twice :: "bill_item list" where
  "twice = [line 1 3, line 1 3]"

definition after_three :: "rat db" where
  "after_three = shop\<lparr>products := [rum\<lparr>stock_quantity := 2\<rparr>, gin, vodka],
                      sale_items := sale_items shop @
                        [\<lparr>sale_id = 2, product_id = 1, quantity = 3, price_at_sale = 10\<rparr>]\<rparr>"

definition id7 :: "rat product" where
  "id7 = \<lparr>p_id = 7, barcode = None, p_name = ''ID 7'', brand = None, category = None,
           size_ml = 330, price = 2, stock_quantity = 0, p_store_id = 1\<rparr>"

definition shop7 :: "rat db" where
  "shop7 = shop\<lparr>products := products shop @ [id7]\<rparr>"

definition crate :: "rat product_form" where
  "crate = \<lparr>form_name = ''Port'', form_brand = ''Douro'', form_category = ''Wine'',
             form_size_ml = 750, form_price = 12, form_barcode = ''560'',
             form_stock_quantity = - 5\<rparr>"

text \<open>
  A reader of zero-padded dates, to run \<open>update_license\<close> on examples. The library's
  \<open>strptime\<close> accepts more (a one-digit month or day); the route is proved for any reader.
\<close>

definition digit_val :: "char \<Rightarrow> int option" where
  "digit_val c = map_of [(CHR ''0'', 0), (CHR ''1'', 1), (CHR ''2'', 2), (CHR ''3'', 3),
     (CHR ''4'', 4), (CHR ''5'', 5), (CHR ''6'', 6), (CHR ''7'', 7), (CHR ''8'', 8),
     (CHR ''9'', 9)] c"

fun digits_val :: "int \<Rightarrow> string \<Rightarrow> int option" where
  "digits_val a [] = Some a"
| "digits_val a (c # cs) =
     (case digit_val c of None \<Rightarrow> None | Some v \<Rightarrow> digits_val (10 * a + v) cs)"

definition days_in :: "int \<Rightarrow> int \<Rightarrow> int" where
  "days_in y m =
     (if m \<in> {1, 3, 5, 7, 8, 10, 12} then 31
      else if m \<in> {4, 6, 9, 11} then 30
      else if y mod 400 = 0 \<or> (y mod 4 = 0 \<and> y mod 100 \<noteq> 0) then 29 else 28)"

definition iso_date :: "string \<Rightarrow> date option" where
  "iso_date s =
     (if length s = 10 \<and> s ! 4 = CHR ''-'' \<and> s ! 7 = CHR ''-'' then
        (case (digits_val 0 (take 4 s), digits_val 0 (take 2 (drop 5 s)),
               digits_val 0 (drop 8 s)) of
           (Some y, Some m, Some dd) \<Rightarrow>
             if 1 \<le> y \<and> 1 \<le> m \<and> m \<le> 12 \<and> 1 \<le> dd \<and> dd \<le> days_in y m
             then Some (Date y m dd) else None
         | _ \<Rightarrow> None)
      else None)"

text \<open>
  The rows that belong to the store \<open>b\<close>: its products, its sales, and the sale items of
  its sales or of its products.
\<close>

definition store_products :: "int \<Rightarrow> 'f db \<Rightarrow> 'f product list" where
  "store_products b d = filter (\<lambda>p. p_store_id p = b) (products d)"

definition store_sales :: "int \<Rightarrow> 'f db \<Rightarrow> 'f sale list" where
  "store_sales b d = filter (\<lambda>s. s_store_id s = b) (sales d)"

definition store_sale_items :: "int \<Rightarrow> 'f db \<Rightarrow> 'f sale_item list" where
  "store_sale_items b d =
     filter (\<lambda>i. sale_id i \<in> s_id ` set (store_sales b d) \<or>
                 product_id i \<in> p_id ` set (store_products b d)) (sale_items d)"

definition rows_of_store ::
  "int \<Rightarrow> 'f db \<Rightarrow> 'f product list \<times> 'f sale list \<times> 'f sale_item list" where
  "rows_of_store b d = (store_products b d, store_sales b d, store_sale_items b d)"

text \<open>The small database after a sale of store 1.\<close>

definition ledger :: "rat db" where
  "ledger = shop\<lparr>sales := sales shop @
                      [\<lparr>s_id = 2, total_amount = 20, sale_date = 200, s_store_id = 1\<rparr>],
                    sale_items := sale_items shop @
                      [\<lparr>sale_id = 2, product_id = 1, quantity = 2, price_at_sale = 10\<rparr>]\<rparr>"

section \<open>The loop of process_bill\<close>

lemma find_map_pres: "(\<And>x. P (g x) = P x) \<Longrightarrow> find P (map g xs) = map_option g (find P xs)"
  by (induction xs) auto

lemma requested_Nil [simp]: "requested pid [] = 0"
  by (simp add: requested_def)

lemma requested_snoc: "requested pid (pre @ [it]) = requested pid pre + (if item_id it = pid then item_quantity it else 0)"
  by (simp add: requested_def)

lemma dec_Nil [simp]: "dec [] ps = ps"
  by (simp add: dec_def)

lemma query_dec:
  assumes "products s = dec pre (products d)"
  shows "query_product s pid sid =
     map_option (\<lambda>p. p\<lparr>stock_quantity := stock_quantity p - requested (p_id p) pre\<rparr>)
       (query_product d pid sid)"
  unfolding query_product_def assms dec_def
  by (rule find_map_pres) simp

lemma query_product_SomeD:
  "query_product d pid sid = Some p \<Longrightarrow> p \<in> set (products d) \<and> p_id p = pid \<and> Some (p_store_id p) = sid"
  unfolding query_product_def by (auto simp: find_Some_iff)

lemma distinct_ids_eq:
  "distinct (map p_id ps) \<Longrightarrow> p \<in> set ps \<Longrightarrow> q \<in> set ps \<Longrightarrow> p_id p = p_id q \<Longrightarrow> p = q"
  by (meson distinct_map inj_onD)

lemma set_stock_dec:
  assumes "distinct (map p_id ps)" "p \<in> set ps" "item_id it = p_id p"
  shows "set_stock (p_id p) (stock_quantity p - requested (p_id p) pre - item_quantity it) (dec pre ps)
         = dec (pre @ [it]) ps"
proof -
  have "\<And>q. q \<in> set ps \<Longrightarrow> p_id q = p_id p \<Longrightarrow> q = p"
    using assms(1,2) distinct_ids_eq by blast
  then have "\<And>q. q \<in> set ps \<Longrightarrow>
      (if p_id q = p_id p
       then (q\<lparr>stock_quantity := stock_quantity q - requested (p_id q) pre\<rparr>)
              \<lparr>stock_quantity := stock_quantity p - requested (p_id p) pre - item_quantity it\<rparr>
       else q\<lparr>stock_quantity := stock_quantity q - requested (p_id q) pre\<rparr>)
      = q\<lparr>stock_quantity := stock_quantity q - requested (p_id q) (pre @ [it])\<rparr>"
    using assms(3) by (force simp: requested_snoc)
  then show ?thesis
    by (simp add: set_stock_def dec_def)
qed

lemma bill_line_inv:
  assumes dist: "distinct (map p_id (products d))"
      and inv: "products s = dec pre (products d)"
  shows "bill_line ops u sid (s, t) it = Inr (s', t') \<longleftrightarrow>
         (\<exists>p. query_product d (item_id it) (u_store_id u) = Some p
            \<and> requested (item_id it) pre + item_quantity it \<le> stock_quantity p
            \<and> s' = s\<lparr>products := dec (pre @ [it]) (products d),
                     sale_items := sale_items s @
                        [\<lparr>sale_id = sid, product_id = p_id p, quantity = item_quantity it,
                          price_at_sale = price p\<rparr>]\<rparr>
            \<and> t' = f_add ops t (f_mul ops (price p) (f_of_int ops (item_quantity it))))"
proof (cases "query_product d (item_id it) (u_store_id u)")
  case None
  then show ?thesis
    by (simp add: bill_line_def query_dec[OF inv])
next
  case (Some p)
  from query_product_SomeD[OF Some] have p: "p \<in> set (products d)" "p_id p = item_id it" by auto
  have upd: "set_stock (p_id p) (stock_quantity p - requested (p_id p) pre - item_quantity it) (dec pre (products d))
         = dec (pre @ [it]) (products d)"
    by (rule set_stock_dec[OF dist p(1)]) (simp add: p(2))
  show ?thesis
    using upd by (auto simp: bill_line_def query_dec[OF inv] Some p(2) inv)
qed


lemma bill_loop_success:
  assumes dist: "distinct (map p_id (products d))"
  shows "products s = dec pre (products d) \<Longrightarrow>
     bill_loop ops raises u sid i (s, t) items = Inr (s', t') \<Longrightarrow>
       (\<forall>k<length items. raises (i + k) = None) \<and> lines_ok u d pre items \<and>
       (\<exists>new. map Some new = map (sale_item_of u d sid) items \<and>
          s' = s\<lparr>products := dec (pre @ items) (products d),
                  sale_items := sale_items s @ new\<rparr> \<and>
          t' = foldl (add_line ops) t new)"
proof (induction items arbitrary: s t i pre)
  case Nil
  then show ?case by simp
next
  case (Cons it rest)
  from Cons.prems(2) have r: "raises i = None"
    by (simp split: option.splits)
  with Cons.prems(2) obtain s1 t1 where
    line: "bill_line ops u sid (s, t) it = Inr (s1, t1)" and
    loop: "bill_loop ops raises u sid (Suc i) (s1, t1) rest = Inr (s', t')"
    by (auto split: sum.splits)
  from line obtain p where
    q: "query_product d (item_id it) (u_store_id u) = Some p" and
    le: "requested (item_id it) pre + item_quantity it \<le> stock_quantity p" and
    s1: "s1 = s\<lparr>products := dec (pre @ [it]) (products d),
                 sale_items := sale_items s @
                   [\<lparr>sale_id = sid, product_id = p_id p, quantity = item_quantity it,
                     price_at_sale = price p\<rparr>]\<rparr>" and
    t1: "t1 = f_add ops t (f_mul ops (price p) (f_of_int ops (item_quantity it)))"
    unfolding bill_line_inv[OF dist Cons.prems(1)] by blast
  have inv1: "products s1 = dec (pre @ [it]) (products d)"
    by (simp add: s1)
  from Cons.IH[OF inv1 loop] obtain new where
    rs: "\<forall>k<length rest. raises (Suc i + k) = None" and
    ok: "lines_ok u d (pre @ [it]) rest" and
    new: "map Some new = map (sale_item_of u d sid) rest" and
    s': "s' = s1\<lparr>products := dec ((pre @ [it]) @ rest) (products d),
                  sale_items := sale_items s1 @ new\<rparr>" and
    t': "t' = foldl (add_line ops) t1 new"
    by blast
  let ?si = "\<lparr>sale_id = sid, product_id = p_id p, quantity = item_quantity it,
               price_at_sale = price p\<rparr>"
  have a: "\<forall>k<length (it # rest). raises (i + k) = None"
  proof (intro allI impI)
    fix k assume "k < length (it # rest)"
    then show "raises (i + k) = None"
      using r rs by (cases k) auto
  qed
  have b: "lines_ok u d pre (it # rest)"
    using q le ok by simp
  have c: "map Some (?si # new) = map (sale_item_of u d sid) (it # rest)"
    using new q by (simp add: sale_item_of_def)
  have d: "s' = s\<lparr>products := dec (pre @ it # rest) (products d),
                  sale_items := sale_items s @ ?si # new\<rparr>"
    by (simp add: s' s1)
  have e: "t' = foldl (add_line ops) t (?si # new)"
    by (simp add: t' t1 add_line_def)
  from a b c d e show ?case by blast
qed

lemma bill_loop_runs:
  assumes dist: "distinct (map p_id (products d))"
  shows "products s = dec pre (products d) \<Longrightarrow>
     \<forall>k<length items. raises (i + k) = None \<Longrightarrow> lines_ok u d pre items \<Longrightarrow>
     \<exists>r. bill_loop ops raises u sid i (s, t) items = Inr r"
proof (induction items arbitrary: s t i pre)
  case Nil
  then show ?case by simp
next
  case (Cons it rest)
  from Cons.prems(2) have r: "raises i = None" by force
  from Cons.prems(3) obtain p where
    q: "query_product d (item_id it) (u_store_id u) = Some p" and
    le: "requested (item_id it) pre + item_quantity it \<le> stock_quantity p" and
    ok: "lines_ok u d (pre @ [it]) rest"
    by (auto split: option.splits)
  define s1 where "s1 = s\<lparr>products := dec (pre @ [it]) (products d),
                 sale_items := sale_items s @
                   [\<lparr>sale_id = sid, product_id = p_id p, quantity = item_quantity it,
                     price_at_sale = price p\<rparr>]\<rparr>"
  define t1 where "t1 = f_add ops t (f_mul ops (price p) (f_of_int ops (item_quantity it)))"
  have line: "bill_line ops u sid (s, t) it = Inr (s1, t1)"
    unfolding bill_line_inv[OF dist Cons.prems(1)] using q le s1_def t1_def by blast
  have inv1: "products s1 = dec (pre @ [it]) (products d)"
    by (simp add: s1_def)
  have rs: "\<forall>k<length rest. raises (Suc i + k) = None"
    using Cons.prems(2) by force
  from Cons.IH[OF inv1 rs ok] show ?case
    by (simp add: r line)
qed


lemma fold_max_ge: "(a::int) \<le> fold max ids a \<and> (\<forall>x\<in>set ids. x \<le> fold max ids a)"
proof (induction ids arbitrary: a)
  case Nil
  then show ?case by simp
next
  case (Cons y ys)
  have "max y a \<le> fold max ys (max y a)" and "\<forall>x\<in>set ys. x \<le> fold max ys (max y a)"
    using Cons.IH[of "max y a"] by auto
  then show ?case by auto
qed

lemma next_id_fresh: "next_id ids \<notin> set ids"
proof
  assume "next_id ids \<in> set ids"
  then have "next_id ids \<le> fold max ids 0"
    using fold_max_ge[of 0 ids] by blast
  then show False by (simp add: next_id_def)
qed

lemma set_total_fresh:
  "sid \<notin> s_id ` set ss \<Longrightarrow> set_total sid v (ss @ [n\<lparr>s_id := sid\<rparr>]) = ss @ [n\<lparr>s_id := sid, total_amount := v\<rparr>]"
  by (induction ss) (auto simp: set_total_def)

section \<open>Empty bills\<close>

text \<open>
  C7. A bill request of a store user with an empty item list is answered with the
  failure "Empty bill" and status 400, and the database is returned as it was: no Sale,
  no SaleItem, no stock change.
\<close>

theorem process_bill_empty:
  "role u = ''store'' \<Longrightarrow>
     process_bill ops now raises u d [] = (d, Json_failure ''Empty bill'' 400)"
  by (simp add: process_bill_def)

theorem process_bill_empty_witness:
  "role till = ''store'' \<and>
   process_bill exact_ops 0 no_fault till shop [] = (shop, Json_failure ''Empty bill'' 400)"
  using process_bill_empty [of till exact_ops 0 no_fault shop] by (simp add: till_def)

section \<open>The request as a whole\<close>

lemma process_bill_unfold:
  assumes "role u = ''store''" "items \<noteq> []" "u_store_id u = Some st"
  shows "process_bill ops now raises u d items =
     (case bill_loop ops raises u (next_id (map s_id (sales d))) 0
             (session0 ops now st d, f_of_int ops 0) items of
        Inl (Rejected msg) \<Rightarrow> (d, Json_failure msg 400)
      | Inl (Raised e) \<Rightarrow> (d, Json_exception e)
      | Inr (s, tot) \<Rightarrow>
          (case raises (length items) of
             Some e \<Rightarrow> (d, Json_exception e)
           | None \<Rightarrow>
               (s\<lparr>sales := set_total (next_id (map s_id (sales d))) (f_round2 ops tot) (sales s)\<rparr>,
                Json_success (next_id (map s_id (sales d))))))"
  using assms by (simp add: process_bill_def session0_def Let_def)

lemma process_bill_cases:
  "process_bill ops now raises u d items = (d, Abort 403) \<or>
   process_bill ops now raises u d items = (d, Json_failure ''Empty bill'' 400) \<or>
   process_bill ops now raises u d items = (d, Json_exception IntegrityError) \<or>
   (\<exists>msg. process_bill ops now raises u d items = (d, Json_failure msg 400)) \<or>
   (\<exists>e. process_bill ops now raises u d items = (d, Json_exception e)) \<or>
   (\<exists>st s tot. role u = ''store'' \<and> items \<noteq> [] \<and> u_store_id u = Some st \<and>
      bill_loop ops raises u (next_id (map s_id (sales d))) 0
         (session0 ops now st d, f_of_int ops 0) items = Inr (s, tot) \<and>
      raises (length items) = None \<and>
      process_bill ops now raises u d items =
        (s\<lparr>sales := set_total (next_id (map s_id (sales d))) (f_round2 ops tot) (sales s)\<rparr>,
         Json_success (next_id (map s_id (sales d)))))"
proof (cases "role u = ''store'' \<and> items \<noteq> []")
  case False
  then show ?thesis by (auto simp: process_bill_def)
next
  case True
  then have r: "role u = ''store''" and ne: "items \<noteq> []" by auto
  show ?thesis
  proof (cases "u_store_id u")
    case None
    then show ?thesis using r ne by (simp add: process_bill_def)
  next
    case (Some st)
    note unf = process_bill_unfold[OF r ne Some, of ops now raises d]
    show ?thesis
    proof (cases "bill_loop ops raises u (next_id (map s_id (sales d))) 0
             (session0 ops now st d, f_of_int ops 0) items")
      case (Inl stop)
      then show ?thesis unfolding unf by (cases stop) simp_all
    next
      case (Inr res)
      obtain s tot where res: "res = (s, tot)" by (cases res)
      show ?thesis
      proof (cases "raises (length items)")
        case None
        have "process_bill ops now raises u d items =
          (s\<lparr>sales := set_total (next_id (map s_id (sales d))) (f_round2 ops tot) (sales s)\<rparr>,
           Json_success (next_id (map s_id (sales d))))"
          unfolding unf by (simp add: Inr res None)
        with r ne Some Inr res None show ?thesis by blast
      next
        case (Some e)
        have "process_bill ops now raises u d items = (d, Json_exception e)"
          unfolding unf by (simp add: Inr res Some)
        then show ?thesis by blast
      qed
    qed
  qed
qed


lemma process_bill_not_success:
  assumes "\<forall>sid. snd (process_bill ops now raises u d items) \<noteq> Json_success sid"
  shows "fst (process_bill ops now raises u d items) = d"
  using process_bill_cases[of ops now raises u d items] assms by auto

lemma process_bill_success:
  assumes dist: "distinct (map p_id (products d))"
      and run: "process_bill ops now raises u d items = (d', Json_success sid)"
  shows "role u = ''store'' \<and> items \<noteq> [] \<and> sid = next_id (map s_id (sales d)) \<and>
         (\<forall>k\<le>length items. raises k = None) \<and> lines_ok u d [] items \<and>
         (\<exists>st new. u_store_id u = Some st \<and>
            map Some new = map (sale_item_of u d sid) items \<and>
            d' = d\<lparr>products := dec items (products d),
                   sales := sales d @ [\<lparr>s_id = sid, total_amount = f_round2 ops (lines_total ops new),
                                        sale_date = now, s_store_id = st\<rparr>],
                   sale_items := sale_items d @ new\<rparr>)"
proof -
  define sid0 where "sid0 = next_id (map s_id (sales d))"
  from process_bill_cases[of ops now raises u d items] run obtain st s t where
    r: "role u = ''store''" and ne: "items \<noteq> []" and st: "u_store_id u = Some st" and
    loop: "bill_loop ops raises u sid0 0 (session0 ops now st d, f_of_int ops 0) items = Inr (s, t)" and
    c: "raises (length items) = None" and
    d': "d' = s\<lparr>sales := set_total sid0 (f_round2 ops t) (sales s)\<rparr>" and
    sid: "sid = sid0"
    unfolding sid0_def by auto
  have inv: "products (session0 ops now st d) = dec [] (products d)"
    by (simp add: session0_def)
  from bill_loop_success[OF dist inv loop] obtain new where
    rs: "\<forall>k<length items. raises (0 + k) = None" and
    ok: "lines_ok u d [] items" and
    new: "map Some new = map (sale_item_of u d sid0) items" and
    s: "s = (session0 ops now st d)\<lparr>products := dec ([] @ items) (products d),
             sale_items := sale_items (session0 ops now st d) @ new\<rparr>" and
    t: "t = foldl (add_line ops) (f_of_int ops 0) new"
    by blast
  have fresh: "sid0 \<notin> s_id ` set (sales d)"
    using next_id_fresh[of "map s_id (sales d)"] by (simp add: sid0_def)
  have tot: "set_total sid0 (f_round2 ops t)
               (sales d @ [\<lparr>s_id = sid0, total_amount = f_of_int ops 0, sale_date = now,
                             s_store_id = st\<rparr>])
             = sales d @ [\<lparr>s_id = sid0, total_amount = f_round2 ops t, sale_date = now,
                            s_store_id = st\<rparr>]"
    using set_total_fresh[OF fresh, of "f_round2 ops t"
        "\<lparr>s_id = sid0, total_amount = f_of_int ops 0, sale_date = now, s_store_id = st\<rparr>"]
    by simp
  have all: "\<forall>k\<le>length items. raises k = None"
    using rs c by (auto simp: le_less)
  have "d' = d\<lparr>products := dec items (products d),
                sales := sales d @ [\<lparr>s_id = sid0, total_amount = f_round2 ops (lines_total ops new),
                                     sale_date = now, s_store_id = st\<rparr>],
                sale_items := sale_items d @ new\<rparr>"
    using tot by (simp add: d' s session0_def t lines_total_def sid0_def)
  with r ne st all ok new sid show ?thesis
    by (auto simp: sid0_def)
qed

lemma process_bill_runs:
  assumes dist: "distinct (map p_id (products d))"
      and r: "role u = ''store''" and ne: "items \<noteq> []" and st: "u_store_id u = Some st"
      and all: "\<forall>k\<le>length items. raises k = None" and ok: "lines_ok u d [] items"
  shows "\<exists>d'. process_bill ops now raises u d items = (d', Json_success (next_id (map s_id (sales d))))"
proof -
  have inv: "products (session0 ops now st d) = dec [] (products d)"
    by (simp add: session0_def)
  have rs: "\<forall>k<length items. raises (0 + k) = None"
    using all by simp
  from bill_loop_runs[OF dist inv rs ok] obtain res where
    "bill_loop ops raises u (next_id (map s_id (sales d))) 0
       (session0 ops now st d, f_of_int ops 0) items = Inr res"
    by blast
  moreover have "raises (length items) = None" using all by simp
  ultimately show ?thesis
    unfolding process_bill_unfold[OF r ne st] by (cases res) simp
qed



lemma requested_Cons:
  "requested pid (it # its) = (if item_id it = pid then item_quantity it else 0) + requested pid its"
  by (simp add: requested_def)

lemma sum_list_single:
  "distinct (map f xs) \<Longrightarrow> a \<in> f ` set xs \<Longrightarrow>
     sum_list (map (\<lambda>x. if a = f x then q else 0) xs) = (q::int)"
proof (induction xs)
  case Nil
  then show ?case by simp
next
  case (Cons x xs)
  show ?case
  proof (cases "a = f x")
    case True
    then have "a \<notin> f ` set xs" using Cons.prems(1) by auto
    then have "sum_list (map (\<lambda>x. if a = f x then q else 0) xs) = 0"
      by (induction xs) auto
    with True show ?thesis by simp
  next
    case False
    then show ?thesis using Cons by auto
  qed
qed

lemma sum_requested:
  assumes "distinct (map p_id ps)"
  shows "\<forall>it\<in>set items. item_id it \<in> p_id ` set ps \<Longrightarrow>
     sum_list (map (\<lambda>p. requested (p_id p) items) ps) = sum_list (map item_quantity items)"
proof (induction items)
  case Nil
  then show ?case by simp
next
  case (Cons it its)
  have "sum_list (map (\<lambda>p. requested (p_id p) (it # its)) ps)
      = sum_list (map (\<lambda>p. if item_id it = p_id p then item_quantity it else 0) ps)
        + sum_list (map (\<lambda>p. requested (p_id p) its) ps)"
    by (simp add: requested_Cons sum_list_addf)
  also have "sum_list (map (\<lambda>p. if item_id it = p_id p then item_quantity it else 0) ps)
      = item_quantity it"
    using sum_list_single[OF assms, of "item_id it" "item_quantity it"] Cons.prems by simp
  finally show ?case using Cons by simp
qed

lemma sum_dec:
  "sum_list (map stock_quantity (dec items ps))
     = sum_list (map stock_quantity ps) - sum_list (map (\<lambda>p. requested (p_id p) items) ps)"
  by (induction ps) (auto simp: dec_def)

lemma lines_ok_resolved:
  "lines_ok u d pre items \<Longrightarrow> it \<in> set items \<Longrightarrow>
     \<exists>p. query_product d (item_id it) (u_store_id u) = Some p"
  by (induction items arbitrary: pre) (auto split: option.splits)

lemma lines_ok_sum:
  assumes "distinct (map p_id (products d))" "lines_ok u d [] items"
  shows "sum_list (map stock_quantity (products d))
           - sum_list (map stock_quantity (dec items (products d)))
         = sum_list (map item_quantity items)"
proof -
  have "\<forall>it\<in>set items. item_id it \<in> p_id ` set (products d)"
  proof
    fix it assume "it \<in> set items"
    from lines_ok_resolved[OF assms(2) this] obtain p where
      "query_product d (item_id it) (u_store_id u) = Some p" by blast
    from query_product_SomeD[OF this] show "item_id it \<in> p_id ` set (products d)"
      by force
  qed
  from sum_requested[OF assms(1) this] show ?thesis
    by (simp add: sum_dec)
qed

text \<open>
  C2. A bill of a store user whose lines all satisfy the preconditions, with no exception
  of the storage layer, succeeds: every product's stock is lowered by exactly what the
  bill requests of it, so the stocks drop in sum by the sum of the requested quantities;
  one SaleItem row per line records the line's quantity and the product's price; the new
  Sale row has the total of price_at_sale * quantity over these rows, added up in line
  order and rounded to two places; and the response carries the new Sale's id.
\<close>

theorem process_bill_valid:
  assumes "distinct (map p_id (products d))"
      and "role u = ''store''" and "u_store_id u = Some st" and "items \<noteq> []"
      and "lines_ok u d [] items" and "\<forall>k\<le>length items. raises k = None"
  shows "\<exists>new. map Some new = map (sale_item_of u d (next_id (map s_id (sales d)))) items \<and>
     process_bill ops now raises u d items =
       (d\<lparr>products := dec items (products d),
          sales := sales d @ [\<lparr>s_id = next_id (map s_id (sales d)),
                                total_amount = f_round2 ops (lines_total ops new),
                                sale_date = now, s_store_id = st\<rparr>],
          sale_items := sale_items d @ new\<rparr>,
        Json_success (next_id (map s_id (sales d)))) \<and>
     sum_list (map stock_quantity (products d))
       - sum_list (map stock_quantity (dec items (products d)))
     = sum_list (map item_quantity items)"
proof -
  from process_bill_runs[OF assms(1,2,4,3,6,5), of ops now] obtain d' where
    run: "process_bill ops now raises u d items = (d', Json_success (next_id (map s_id (sales d))))"
    by blast
  from process_bill_success[OF assms(1) run] assms(3) obtain new where
    "map Some new = map (sale_item_of u d (next_id (map s_id (sales d)))) items"
    "d' = d\<lparr>products := dec items (products d),
          sales := sales d @ [\<lparr>s_id = next_id (map s_id (sales d)),
                                total_amount = f_round2 ops (lines_total ops new),
                                sale_date = now, s_store_id = st\<rparr>],
          sale_items := sale_items d @ new\<rparr>"
    by auto
  with run lines_ok_sum[OF assms(1,5)] show ?thesis by blast
qed

lemma shop_distinct: "distinct (map p_id (products shop))"
  by (simp add: shop_def rum_def gin_def vodka_def)

text \<open>
  C1. Bill processing is all-or-nothing. Either the request succeeds, and then the
  returned database is the old one with every stock lowered by what the bill requests of
  the product, one new Sale row and one SaleItem row per line; or the response is not a
  success and the returned database is the old one. A line that fails its precondition,
  or an exception of the storage layer at any line or at the commit, gives the second
  case.
\<close>

theorem process_bill_all_or_nothing:
  assumes "distinct (map p_id (products d))"
  shows "((\<exists>sid st new. u_store_id u = Some st \<and>
            map Some new = map (sale_item_of u d sid) items \<and>
            process_bill ops now raises u d items =
              (d\<lparr>products := dec items (products d),
                 sales := sales d @ [\<lparr>s_id = sid,
                                       total_amount = f_round2 ops (lines_total ops new),
                                       sale_date = now, s_store_id = st\<rparr>],
                 sale_items := sale_items d @ new\<rparr>,
               Json_success sid))
          \<or> (fst (process_bill ops now raises u d items) = d \<and>
              (\<forall>sid. snd (process_bill ops now raises u d items) \<noteq> Json_success sid)))
         \<and> (\<not> lines_ok u d [] items \<or> (\<exists>k\<le>length items. raises k \<noteq> None) \<longrightarrow>
              fst (process_bill ops now raises u d items) = d \<and>
              (\<forall>sid. snd (process_bill ops now raises u d items) \<noteq> Json_success sid))"
proof -
  define r where "r = process_bill ops now raises u d items"
  have "((\<exists>sid st new. u_store_id u = Some st \<and>
            map Some new = map (sale_item_of u d sid) items \<and>
            r = (d\<lparr>products := dec items (products d),
                 sales := sales d @ [\<lparr>s_id = sid,
                                       total_amount = f_round2 ops (lines_total ops new),
                                       sale_date = now, s_store_id = st\<rparr>],
                 sale_items := sale_items d @ new\<rparr>,
               Json_success sid))
          \<or> (fst r = d \<and> (\<forall>sid. snd r \<noteq> Json_success sid)))
         \<and> (\<not> lines_ok u d [] items \<or> (\<exists>k\<le>length items. raises k \<noteq> None) \<longrightarrow>
              fst r = d \<and> (\<forall>sid. snd r \<noteq> Json_success sid))"
  proof (cases "\<exists>sid. snd r = Json_success sid")
    case True
    then obtain sid where s: "snd r = Json_success sid" ..
    have eq: "process_bill ops now raises u d items = (fst r, Json_success sid)"
      unfolding r_def[symmetric] using s by (cases r) simp
    note succ = process_bill_success[OF assms eq]
    from succ have ok: "lines_ok u d [] items" by (elim conjE)
    from succ have nf: "\<forall>k\<le>length items. raises k = None" by (elim conjE)
    from succ obtain st new where
      st: "u_store_id u = Some st" and
      new: "map Some new = map (sale_item_of u d sid) items" and
      d': "fst r = d\<lparr>products := dec items (products d),
                 sales := sales d @ [\<lparr>s_id = sid,
                                       total_amount = f_round2 ops (lines_total ops new),
                                       sale_date = now, s_store_id = st\<rparr>],
                 sale_items := sale_items d @ new\<rparr>"
      by (elim conjE exE)
    have "r = (d\<lparr>products := dec items (products d),
                 sales := sales d @ [\<lparr>s_id = sid,
                                       total_amount = f_round2 ops (lines_total ops new),
                                       sale_date = now, s_store_id = st\<rparr>],
                 sale_items := sale_items d @ new\<rparr>,
               Json_success sid)"
      using d' s by (cases r) simp
    with st new have first: "\<exists>sid st new. u_store_id u = Some st \<and>
            map Some new = map (sale_item_of u d sid) items \<and>
            r = (d\<lparr>products := dec items (products d),
                 sales := sales d @ [\<lparr>s_id = sid,
                                       total_amount = f_round2 ops (lines_total ops new),
                                       sale_date = now, s_store_id = st\<rparr>],
                 sale_items := sale_items d @ new\<rparr>,
               Json_success sid)"
      by (intro exI conjI)
    have second: "\<not> lines_ok u d [] items \<or> (\<exists>k\<le>length items. raises k \<noteq> None) \<longrightarrow>
              fst r = d \<and> (\<forall>sid. snd r \<noteq> Json_success sid)"
      using ok nf by auto
    show ?thesis by (rule conjI[OF disjI1[OF first] second])
  next
    case False
    then have ns: "\<forall>sid. snd r \<noteq> Json_success sid" by simp
    then have "fst r = d"
      unfolding r_def by (rule process_bill_not_success)
    with ns show ?thesis by simp
  qed
  then show ?thesis unfolding r_def .
qed

theorem process_bill_all_or_nothing_witness:
  "distinct (map p_id (products shop)) \<and>
   process_bill exact_ops 7 no_fault till shop two_lines =
     (shop\<lparr>products := [rum\<lparr>stock_quantity := 2\<rparr>, gin\<lparr>stock_quantity := 2\<rparr>, vodka],
           sales := sales shop @
             [\<lparr>s_id = 2, total_amount = 85 / 2, sale_date = 7, s_store_id = 1\<rparr>],
           sale_items := sale_items shop @
             [\<lparr>sale_id = 2, product_id = 1, quantity = 3, price_at_sale = 10\<rparr>,
              \<lparr>sale_id = 2, product_id = 2, quantity = 1, price_at_sale = 25 / 2\<rparr>]\<rparr>,
      Json_success 2) \<and>
   \<not> lines_ok till shop [] too_much \<and>
   fst (process_bill exact_ops 7 no_fault till shop too_much) = shop \<and>
   (\<forall>sid. snd (process_bill exact_ops 7 no_fault till shop too_much) \<noteq> Json_success sid) \<and>
   (\<exists>k\<le>length two_lines. disk_full k \<noteq> None) \<and>
   fst (process_bill exact_ops 7 disk_full till shop two_lines) = shop \<and>
   (\<forall>sid. snd (process_bill exact_ops 7 disk_full till shop two_lines) \<noteq> Json_success sid)"
proof -
  have a: "process_bill exact_ops 7 no_fault till shop two_lines =
     (shop\<lparr>products := [rum\<lparr>stock_quantity := 2\<rparr>, gin\<lparr>stock_quantity := 2\<rparr>, vodka],
           sales := sales shop @
             [\<lparr>s_id = 2, total_amount = 85 / 2, sale_date = 7, s_store_id = 1\<rparr>],
           sale_items := sale_items shop @
             [\<lparr>sale_id = 2, product_id = 1, quantity = 3, price_at_sale = 10\<rparr>,
              \<lparr>sale_id = 2, product_id = 2, quantity = 1, price_at_sale = 25 / 2\<rparr>]\<rparr>,
      Json_success 2)"
    by (simp add: process_bill_def bill_line_def query_product_def set_stock_def set_total_def
        next_id_def shop_def till_def rum_def gin_def vodka_def line_def no_fault_def
        exact_ops_def round_half_even_def two_lines_def Let_def)
  have b: "\<not> lines_ok till shop [] too_much"
    by (simp add: query_product_def requested_def shop_def till_def rum_def gin_def vodka_def
        line_def too_much_def)
  have c: "\<exists>k\<le>length two_lines. disk_full k \<noteq> None"
    by (rule exI[of _ 2]) (simp add: two_lines_def disk_full_def)
  note t1 = process_bill_all_or_nothing[OF shop_distinct, of till too_much exact_ops 7 no_fault]
  note t2 = process_bill_all_or_nothing[OF shop_distinct, of till two_lines exact_ops 7 disk_full]
  have b': "fst (process_bill exact_ops 7 no_fault till shop too_much) = shop \<and>
   (\<forall>sid. snd (process_bill exact_ops 7 no_fault till shop too_much) \<noteq> Json_success sid)"
    by (rule mp[OF conjunct2[OF t1] disjI1[OF b]])
  have c': "fst (process_bill exact_ops 7 disk_full till shop two_lines) = shop \<and>
   (\<forall>sid. snd (process_bill exact_ops 7 disk_full till shop two_lines) \<noteq> Json_success sid)"
    by (rule mp[OF conjunct2[OF t2] disjI2[OF c]])
  show ?thesis
    by (intro conjI shop_distinct a b c conjunct1[OF b'] conjunct2[OF b'] conjunct1[OF c']
        conjunct2[OF c'])
qed

theorem process_bill_valid_witness:
  "distinct (map p_id (products shop)) \<and> role till = ''store'' \<and> u_store_id till = Some 1 \<and>
   three_lines \<noteq> [] \<and> lines_ok till shop [] three_lines \<and>
   \<not> (\<exists>k\<le>length three_lines. no_fault k \<noteq> None) \<and>
   (\<exists>new. map Some new =
        map (sale_item_of till shop (next_id (map s_id (sales shop)))) three_lines \<and>
     process_bill exact_ops 7 no_fault till shop three_lines =
       (shop\<lparr>products := dec three_lines (products shop),
          sales := sales shop @ [\<lparr>s_id = next_id (map s_id (sales shop)),
                                total_amount = f_round2 exact_ops (lines_total exact_ops new),
                                sale_date = 7, s_store_id = 1\<rparr>],
          sale_items := sale_items shop @ new\<rparr>,
        Json_success (next_id (map s_id (sales shop)))) \<and>
     sum_list (map stock_quantity (products shop))
       - sum_list (map stock_quantity (dec three_lines (products shop)))
     = sum_list (map item_quantity three_lines))"
proof -
  have h2: "role till = ''store''" and h3: "u_store_id till = Some 1"
    by (simp_all add: till_def)
  have h4: "three_lines \<noteq> []"
    by (simp add: three_lines_def)
  have h5: "lines_ok till shop [] three_lines"
    by (simp add: query_product_def requested_def shop_def rum_def gin_def vodka_def till_def
        line_def three_lines_def)
  have h6: "\<forall>k\<le>length three_lines. no_fault k = None"
    by (simp add: no_fault_def)
  have h6': "\<not> (\<exists>k\<le>length three_lines. no_fault k \<noteq> None)"
    by (simp add: no_fault_def)
  note c = process_bill_valid[OF shop_distinct h2 h3 h4 h5 h6, of exact_ops 7]
  show ?thesis
    by (intro conjI; (rule shop_distinct h2 h3 h4 h5 h6' c))
qed

lemma requested_append: "requested pid (xs @ ys) = requested pid xs + requested pid ys"
  by (simp add: requested_def)

lemma requested_notin: "pid \<notin> item_id ` set xs \<Longrightarrow> requested pid xs = 0"
  by (induction xs) (auto simp: requested_Cons)

lemma lines_ok_requested:
  "lines_ok u d pre items \<Longrightarrow> pid \<in> item_id ` set items \<Longrightarrow>
     query_product d pid (u_store_id u) = Some p \<Longrightarrow>
     requested pid (pre @ items) \<le> stock_quantity p"
proof (induction items arbitrary: pre)
  case Nil
  then show ?case by simp
next
  case (Cons it rest)
  from Cons.prems(1) have ok: "lines_ok u d (pre @ [it]) rest"
    by simp
  show ?case
  proof (cases "pid \<in> item_id ` set rest")
    case True
    from Cons.IH[OF ok True Cons.prems(3)] show ?thesis by simp
  next
    case False
    with Cons.prems(2) have pid: "item_id it = pid" by auto
    from Cons.prems(1,3) pid
    have "requested pid pre + item_quantity it \<le> stock_quantity p"
      by simp
    moreover have "requested pid rest = 0"
      using False by (rule requested_notin)
    ultimately show ?thesis
      using pid by (simp add: requested_append requested_Cons)
  qed
qed

lemma bill_loop_append:
  "bill_loop ops raises u sid i st (xs @ ys) =
     (case bill_loop ops raises u sid i st xs of
        Inl stop \<Rightarrow> Inl stop
      | Inr st' \<Rightarrow> bill_loop ops raises u sid (i + length xs) st' ys)"
  by (induction xs arbitrary: i st) (simp_all split: option.splits sum.splits)

lemma bill_loop_stock:
  assumes dist: "distinct (map p_id (products d))"
      and s0: "products s0 = products d"
      and loop: "bill_loop ops raises u sid i (s0, t0) pre = Inr (s, t)"
  shows "query_product s pid (u_store_id u) =
     map_option (\<lambda>p. p\<lparr>stock_quantity := stock_quantity p - requested pid pre\<rparr>)
       (query_product d pid (u_store_id u))"
proof -
  have inv: "products s0 = dec [] (products d)"
    by (simp add: s0)
  from bill_loop_success[OF dist inv loop] have "products s = dec pre (products d)"
    by auto
  from query_dec[OF this, of pid "u_store_id u"] show ?thesis
    by (cases "query_product d pid (u_store_id u)")
       (auto dest: query_product_SomeD)
qed

section \<open>Rejected lines\<close>

lemma bill_line_rejects:
  assumes inv: "products s = dec pre (products d)"
  shows "query_product d (item_id it) (u_store_id u) = None \<Longrightarrow>
           bill_line ops u sid (s, t) it =
             Inl (Rejected (''Not enough stock for ID '' @ str_int (item_id it)))"
    and "query_product d (item_id it) (u_store_id u) = Some p \<Longrightarrow>
         stock_quantity p < requested (item_id it) pre + item_quantity it \<Longrightarrow>
           bill_line ops u sid (s, t) it = Inl (Rejected (''Not enough stock for '' @ p_name p))"
proof -
  show "bill_line ops u sid (s, t) it =
             Inl (Rejected (''Not enough stock for ID '' @ str_int (item_id it)))"
    if "query_product d (item_id it) (u_store_id u) = None"
    using that by (simp add: bill_line_def query_dec[OF inv])
  show "bill_line ops u sid (s, t) it = Inl (Rejected (''Not enough stock for '' @ p_name p))"
    if q: "query_product d (item_id it) (u_store_id u) = Some p"
      and "stock_quantity p < requested (item_id it) pre + item_quantity it"
  proof -
    from query_product_SomeD[OF q] have "p_id p = item_id it" by simp
    with that show ?thesis
      by (simp add: bill_line_def query_dec[OF inv])
  qed
qed

lemma process_bill_rejects:
  assumes dist: "distinct (map p_id (products d))"
      and r: "role u = ''store''" and st: "u_store_id u = Some st"
      and ok: "lines_ok u d [] pre" and nf: "\<forall>k\<le>length pre. raises k = None"
      and line: "\<And>s t. products s = dec pre (products d) \<Longrightarrow>
                   bill_line ops u (next_id (map s_id (sales d))) (s, t) it = Inl (Rejected msg)"
  shows "process_bill ops now raises u d (pre @ it # rest) = (d, Json_failure msg 400)"
proof -
  let ?sid = "next_id (map s_id (sales d))"
  have inv: "products (session0 ops now st d) = dec [] (products d)"
    by (simp add: session0_def)
  have rs: "\<forall>k<length pre. raises (0 + k) = None"
    using nf by simp
  from bill_loop_runs[OF dist inv rs ok] obtain res where
    pre: "bill_loop ops raises u ?sid 0 (session0 ops now st d, f_of_int ops 0) pre = Inr res"
    by blast
  obtain s t where res: "res = (s, t)" by (cases res)
  from bill_loop_success[OF dist inv pre[unfolded res]] have "products s = dec pre (products d)"
    by auto
  from line[OF this] have rej: "bill_line ops u ?sid (s, t) it = Inl (Rejected msg)" .
  have here: "raises (length pre) = None"
    using nf by simp
  have "bill_loop ops raises u ?sid 0 (session0 ops now st d, f_of_int ops 0) (pre @ it # rest)
        = Inl (Rejected msg)"
    unfolding bill_loop_append pre res by (simp add: here rej)
  moreover have "pre @ it # rest \<noteq> []"
    by simp
  ultimately show ?thesis
    by (simp add: process_bill_unfold[OF r _ st])
qed

text \<open>
  C3 as the program has it. There is one rejection: the branch
  \<open>if not product or product.stock_quantity < item['quantity']\<close> answers both a product
  that the caller's store does not have and a product with too little stock with status
  400 and a message that starts "Not enough stock for". When the lines before it pass and
  no exception is raised, a line whose id does not resolve ends the request with that
  message and "ID " and the id, a line with too little stock with that message and the
  product's name; the database is returned unchanged in both cases.
\<close>

theorem process_bill_unresolved_line:
  assumes "distinct (map p_id (products d))"
      and "role u = ''store''" and "u_store_id u = Some st"
      and "lines_ok u d [] pre" and "\<forall>k\<le>length pre. raises k = None"
  shows "(query_product d (item_id it) (u_store_id u) = None \<longrightarrow>
            process_bill ops now raises u d (pre @ it # rest) =
              (d, Json_failure (''Not enough stock for ID '' @ str_int (item_id it)) 400)) \<and>
         (\<forall>p. query_product d (item_id it) (u_store_id u) = Some p \<longrightarrow>
            stock_quantity p < requested (item_id it) pre + item_quantity it \<longrightarrow>
            process_bill ops now raises u d (pre @ it # rest) =
              (d, Json_failure (''Not enough stock for '' @ p_name p) 400))"
proof (intro conjI impI allI)
  assume q: "query_product d (item_id it) (u_store_id u) = None"
  show "process_bill ops now raises u d (pre @ it # rest) =
              (d, Json_failure (''Not enough stock for ID '' @ str_int (item_id it)) 400)"
    by (rule process_bill_rejects[OF assms]) (rule bill_line_rejects(1)[OF _ q])
next
  fix p
  assume q: "query_product d (item_id it) (u_store_id u) = Some p"
    and less: "stock_quantity p < requested (item_id it) pre + item_quantity it"
  show "process_bill ops now raises u d (pre @ it # rest) =
              (d, Json_failure (''Not enough stock for '' @ p_name p) 400)"
    by (rule process_bill_rejects[OF assms]) (rule bill_line_rejects(2)[OF _ q less])
qed

theorem process_bill_unresolved_line_witness:
  "distinct (map p_id (products shop)) \<and> role till = ''store'' \<and> u_store_id till = Some 1 \<and>
   lines_ok till shop [] [line 1 3] \<and> \<not> (\<exists>k\<le>length [line 1 3]. no_fault k \<noteq> None) \<and>
   query_product shop (item_id (line 3 1)) (u_store_id till) = None \<and>
   process_bill exact_ops 7 no_fault till shop ([line 1 3] @ line 3 1 # [line 2 1]) =
     (shop, Json_failure ''Not enough stock for ID 3'' 400) \<and>
   query_product shop (item_id (line 1 3)) (u_store_id till) = Some rum \<and>
   stock_quantity rum < requested (item_id (line 1 3)) [line 1 3] + item_quantity (line 1 3) \<and>
   process_bill exact_ops 7 no_fault till shop ([line 1 3] @ line 1 3 # [line 2 1]) =
     (shop, Json_failure ''Not enough stock for Rum'' 400)"
proof -
  have h2: "role till = ''store''" and h3: "u_store_id till = Some 1"
    by (simp_all add: till_def)
  have h4: "lines_ok till shop [] [line 1 3]"
    by (simp add: query_product_def requested_def shop_def rum_def gin_def vodka_def till_def
        line_def)
  have h5: "\<forall>k\<le>length [line 1 3]. no_fault k = None"
    by (simp add: no_fault_def)
  have h5': "\<not> (\<exists>k\<le>length [line 1 3]. no_fault k \<noteq> None)"
    by (simp add: no_fault_def)
  have q1: "query_product shop (item_id (line 3 1)) (u_store_id till) = None"
    by (simp add: query_product_def shop_def rum_def gin_def vodka_def till_def line_def)
  have q2: "query_product shop (item_id (line 1 3)) (u_store_id till) = Some rum"
    by (simp add: query_product_def shop_def rum_def gin_def vodka_def till_def line_def)
  have less: "stock_quantity rum
      < requested (item_id (line 1 3)) [line 1 3] + item_quantity (line 1 3)"
    by (simp add: requested_def rum_def line_def)
  note t1 = process_bill_unresolved_line[OF shop_distinct h2 h3 h4 h5,
      of "line 3 1" exact_ops 7 "[line 2 1]"]
  note t2 = process_bill_unresolved_line[OF shop_distinct h2 h3 h4 h5,
      of "line 1 3" exact_ops 7 "[line 2 1]"]
  have a: "process_bill exact_ops 7 no_fault till shop ([line 1 3] @ line 3 1 # [line 2 1]) =
     (shop, Json_failure (''Not enough stock for ID '' @ str_int (item_id (line 3 1))) 400)"
    by (rule mp[OF conjunct1[OF t1] q1])
  have a': "process_bill exact_ops 7 no_fault till shop ([line 1 3] @ line 3 1 # [line 2 1]) =
     (shop, Json_failure ''Not enough stock for ID 3'' 400)"
    unfolding a by (simp add: line_def str_int_def digit_char_def)
  have b: "process_bill exact_ops 7 no_fault till shop ([line 1 3] @ line 1 3 # [line 2 1]) =
     (shop, Json_failure (''Not enough stock for '' @ p_name rum) 400)"
    by (rule mp[OF mp[OF spec[OF conjunct2[OF t2]] q2] less])
  have b': "process_bill exact_ops 7 no_fault till shop ([line 1 3] @ line 1 3 # [line 2 1]) =
     (shop, Json_failure ''Not enough stock for Rum'' 400)"
    unfolding b by (simp add: rum_def)
  show ?thesis
    by (intro conjI shop_distinct h2 h3 h4 h5' q1 a' q2 less b')
qed

text \<open>
  The claim as stated fails: the response to a bill that names a product the store does
  not have is the response to a bill that names a product of the store with too little
  stock.
\<close>

theorem product_not_found_counterexample:
  "query_product shop 7 (u_store_id till) = None \<and>
   query_product shop7 7 (u_store_id till) = Some id7 \<and>
   stock_quantity id7 < item_quantity (line 7 1) \<and>
   snd (process_bill exact_ops 7 no_fault till shop [line 7 1]) =
     Json_failure ''Not enough stock for ID 7'' 400 \<and>
   snd (process_bill exact_ops 7 no_fault till shop7 [line 7 1]) =
     Json_failure ''Not enough stock for ID 7'' 400"
  by (simp add: process_bill_def bill_line_def query_product_def shop7_def id7_def shop_def
      till_def rum_def gin_def vodka_def line_def no_fault_def exact_ops_def next_id_def
      str_int_def digit_char_def Let_def)

section \<open>Writes of stock_quantity\<close>

lemma query_set_stock:
  assumes "query_product d pid sid = Some p"
  shows "query_product (d\<lparr>products := set_stock pid v (products d)\<rparr>) pid sid
         = Some (p\<lparr>stock_quantity := v\<rparr>)"
proof -
  have "find (\<lambda>p. p_id p = pid \<and> Some (p_store_id p) = sid)
          (map (\<lambda>p. if p_id p = pid then p\<lparr>stock_quantity := v\<rparr> else p) (products d))
        = map_option (\<lambda>p. if p_id p = pid then p\<lparr>stock_quantity := v\<rparr> else p)
            (find (\<lambda>p. p_id p = pid \<and> Some (p_store_id p) = sid) (products d))"
    by (rule find_map_pres) simp
  with assms query_product_SomeD[OF assms] show ?thesis
    by (simp add: query_product_def set_stock_def)
qed

lemma set_stock_others:
  "filter (\<lambda>r. p_id r \<noteq> pid) (set_stock pid v ps) = filter (\<lambda>r. p_id r \<noteq> pid) ps"
  by (induction ps) (auto simp: set_stock_def)

text \<open>
  C4. The claim fails at product creation: the dashboard stores the submitted
  stock_quantity unchecked. A store user who posts the form \<open>crate\<close>, with
  stock_quantity -5, gets a product with stock -5.
\<close>

theorem dashboard_negative_stock:
  "dashboard till shop POST crate =
     (shop\<lparr>products := products shop @
        [\<lparr>p_id = 4, barcode = Some ''560'', p_name = ''Port'', brand = Some ''Douro'',
          category = Some ''Wine'', size_ml = 750, price = 12, stock_quantity = - 5,
          p_store_id = 1\<rparr>]\<rparr>,
      Redirect ''dashboard'') \<and>
   map stock_quantity (products (fst (dashboard till shop POST crate))) = [5, 3, 4, - 5]"
  by (simp add: dashboard_def crate_def till_def shop_def rum_def gin_def vodka_def next_id_def
      Let_def)

text \<open>The two other writes of stock_quantity keep it non-negative.\<close>

lemma update_stock_nonneg:
  assumes "\<forall>p\<in>set (products d). 0 \<le> stock_quantity p"
  shows "\<forall>p\<in>set (products (fst (update_stock c u d pid n))). 0 \<le> stock_quantity p"
proof (cases "query_product d pid (u_store_id u)")
  case None
  then show ?thesis using assms by (simp add: update_stock_def)
next
  case (Some p)
  from query_product_SomeD[OF Some] assms have "0 \<le> stock_quantity p" by blast
  then show ?thesis
    using assms Some by (cases c) (auto simp: update_stock_def set_stock_def)
qed

lemma process_bill_nonneg:
  assumes dist: "distinct (map p_id (products d))"
      and nn: "\<forall>p\<in>set (products d). 0 \<le> stock_quantity p"
  shows "\<forall>p\<in>set (products (fst (process_bill ops now raises u d items))). 0 \<le> stock_quantity p"
proof -
  define r where "r = process_bill ops now raises u d items"
  have "\<forall>p\<in>set (products (fst r)). 0 \<le> stock_quantity p"
  proof (cases "\<exists>n. snd r = Json_success n")
    case False
    then have "\<forall>n. snd r \<noteq> Json_success n" by simp
    then have "fst r = d"
      unfolding r_def by (rule process_bill_not_success)
    with nn show ?thesis by simp
  next
    case True
    then obtain n where "snd r = Json_success n" ..
    then have eq: "process_bill ops now raises u d items = (fst r, Json_success n)"
      unfolding r_def[symmetric] by (cases r) simp
    note succ = process_bill_success[OF dist eq]
    from succ have ok: "lines_ok u d [] items" by (elim conjE)
    from succ have ps: "products (fst r) = dec items (products d)"
      by auto
    have "0 \<le> stock_quantity p - requested (p_id p) items" if p: "p \<in> set (products d)" for p
    proof (cases "p_id p \<in> item_id ` set items")
      case False
      then have "requested (p_id p) items = 0" by (rule requested_notin)
      with nn p show ?thesis by simp
    next
      case True
      then obtain it where it: "it \<in> set items" "item_id it = p_id p" by auto
      from lines_ok_resolved[OF ok it(1)] obtain p' where
        q: "query_product d (item_id it) (u_store_id u) = Some p'" by blast
      from query_product_SomeD[OF q] it(2) have "p' \<in> set (products d)" "p_id p' = p_id p"
        by simp_all
      with distinct_ids_eq[OF dist _ p] have "p' = p" by blast
      with q it(2) have "query_product d (p_id p) (u_store_id u) = Some p" by simp
      from lines_ok_requested[OF ok True this] show ?thesis by simp
    qed
    then show ?thesis
      unfolding ps dec_def by auto
  qed
  then show ?thesis unfolding r_def .
qed

text \<open>
  C9. A store user adds \<open>n\<close> to the stock of a product of the own store. For a positive
  \<open>n\<close>, when the commit raises nothing, the product's stock_quantity goes up by exactly
  \<open>n\<close> and no other product row changes; when the commit raises, the exception is left
  unhandled and the database is as it was. For \<open>n \<le> 0\<close> nothing is written and the commit
  is not reached: the database is returned as it was, with the same redirect to the
  dashboard as after an addition, so no error is shown.
\<close>

theorem update_stock_adds:
  assumes "role u = ''store''" and "query_product d pid (u_store_id u) = Some p"
  shows "(0 < n \<longrightarrow>
            snd (update_stock None u d pid n) = Redirect ''dashboard'' \<and>
            query_product (fst (update_stock None u d pid n)) pid (u_store_id u)
              = Some (p\<lparr>stock_quantity := stock_quantity p + n\<rparr>) \<and>
            filter (\<lambda>r. p_id r \<noteq> pid) (products (fst (update_stock None u d pid n)))
              = filter (\<lambda>r. p_id r \<noteq> pid) (products d) \<and>
            stores (fst (update_stock None u d pid n)) = stores d \<and>
            sales (fst (update_stock None u d pid n)) = sales d \<and>
            sale_items (fst (update_stock None u d pid n)) = sale_items d \<and>
            (\<forall>e. update_stock (Some e) u d pid n = (d, Unhandled e))) \<and>
         (n \<le> 0 \<longrightarrow> (\<forall>c. update_stock c u d pid n = (d, Redirect ''dashboard'')))"
proof -
  from query_product_SomeD[OF assms(2)] have pid: "p_id p = pid" by simp
  have pos: "update_stock None u d pid n =
      (d\<lparr>products := set_stock pid (stock_quantity p + n) (products d)\<rparr>, Redirect ''dashboard'')"
    if "0 < n"
    using that assms pid by (simp add: update_stock_def)
  have exn: "update_stock (Some e) u d pid n = (d, Unhandled e)" if "0 < n" for e
    using that assms by (simp add: update_stock_def)
  have non: "update_stock c u d pid n = (d, Redirect ''dashboard'')" if "n \<le> 0" for c
    using that assms by (simp add: update_stock_def)
  show ?thesis
    using query_set_stock[OF assms(2)] by (auto simp: pos exn non set_stock_others)
qed

theorem update_stock_adds_witness:
  "role till = ''store'' \<and> query_product shop 2 (u_store_id till) = Some gin \<and>
   (0::int) < 6 \<and>
   snd (update_stock None till shop 2 6) = Redirect ''dashboard'' \<and>
   query_product (fst (update_stock None till shop 2 6)) 2 (u_store_id till)
     = Some (gin\<lparr>stock_quantity := stock_quantity gin + 6\<rparr>) \<and>
   stock_quantity gin + 6 = 9 \<and>
   update_stock (Some (DbError ''out of range'')) till shop 2 6
     = (shop, Unhandled (DbError ''out of range'')) \<and>
   (- 4::int) \<le> 0 \<and> update_stock None till shop 2 (- 4) = (shop, Redirect ''dashboard'')"
proof -
  have h1: "role till = ''store''"
    by (simp add: till_def)
  have h2: "query_product shop 2 (u_store_id till) = Some gin"
    by (simp add: query_product_def shop_def till_def rum_def gin_def)
  note t1 = update_stock_adds[OF h1 h2, of 6]
  note t2 = update_stock_adds[OF h1 h2, of "- 4"]
  have p6: "(0::int) < 6" and m4: "(- 4::int) \<le> 0" by simp_all
  note a = mp[OF conjunct1[OF t1] p6]
  note b = spec[OF mp[OF conjunct2[OF t2] m4], of None]
  have e: "update_stock (Some (DbError ''out of range'')) till shop 2 6
     = (shop, Unhandled (DbError ''out of range''))"
    using a by (elim conjE) (erule allE)
  have g: "stock_quantity gin + 6 = 9"
    by (simp add: gin_def)
  show ?thesis
    by (intro conjI h1 h2 p6 m4 g b e conjunct1[OF a] conjunct1[OF conjunct2[OF a]])
qed

section \<open>License updates\<close>

lemma find_set_license:
  assumes "find (\<lambda>s. st_id s = sid) ss = Some s0"
  shows "find (\<lambda>s. st_id s = sid) (set_license sid v ss) = Some (s0\<lparr>license_validity := v\<rparr>)"
proof -
  have "find (\<lambda>s. st_id s = sid)
          (map (\<lambda>s. if st_id s = sid then s\<lparr>license_validity := v\<rparr> else s) ss)
        = map_option (\<lambda>s. if st_id s = sid then s\<lparr>license_validity := v\<rparr> else s)
            (find (\<lambda>s. st_id s = sid) ss)"
    by (rule find_map_pres) simp
  moreover from assms have "st_id s0 = sid"
    by (auto simp: find_Some_iff)
  ultimately show ?thesis
    using assms by (simp add: set_license_def)
qed

lemma set_license_others:
  "filter (\<lambda>s. st_id s \<noteq> sid) (set_license sid v ss) = filter (\<lambda>s. st_id s \<noteq> sid) ss"
  by (induction ss) (auto simp: set_license_def)

text \<open>
  C8. A superadmin posts a new validity for an existing store. When the text is not
  empty and the date reader returns a date, and the commit raises nothing, the store's
  license_validity becomes that date and nothing else changes; when the commit raises,
  the exception is left unhandled and the database is as it was. When the text is missing,
  empty or malformed (the reader raises ValueError), nothing is written and the commit is
  not reached: the database is returned as it was. The answer to a malformed text is the
  redirect to the superadmin dashboard that follows an update: the caller sees no error.
\<close>

theorem update_license_sets_or_ignores:
  assumes "role u = ''superadmin''" and "find (\<lambda>s. st_id s = sid) (stores d) = Some s0"
  shows "(\<forall>dt. s \<noteq> [] \<longrightarrow> strptime s = Some dt \<longrightarrow>
            snd (update_license strptime None u d sid (Some s)) = Redirect ''superadmin_dashboard'' \<and>
            find (\<lambda>s. st_id s = sid)
                (stores (fst (update_license strptime None u d sid (Some s))))
              = Some (s0\<lparr>license_validity := dt\<rparr>) \<and>
            filter (\<lambda>s. st_id s \<noteq> sid)
                (stores (fst (update_license strptime None u d sid (Some s))))
              = filter (\<lambda>s. st_id s \<noteq> sid) (stores d) \<and>
            products (fst (update_license strptime None u d sid (Some s))) = products d \<and>
            sales (fst (update_license strptime None u d sid (Some s))) = sales d \<and>
            sale_items (fst (update_license strptime None u d sid (Some s))) = sale_items d \<and>
            (\<forall>e. update_license strptime (Some e) u d sid (Some s) = (d, Unhandled e))) \<and>
         (s = [] \<or> strptime s = None \<longrightarrow>
            (\<forall>c. update_license strptime c u d sid (Some s)
                   = (d, Redirect ''superadmin_dashboard''))) \<and>
         (\<forall>c. update_license strptime c u d sid None = (d, Redirect ''superadmin_dashboard''))"
proof -
  from assms(2) have sid: "st_id s0 = sid"
    by (auto simp: find_Some_iff)
  have set: "update_license strptime None u d sid (Some s) =
      (d\<lparr>stores := set_license sid dt (stores d)\<rparr>, Redirect ''superadmin_dashboard'')"
    if "s \<noteq> []" "strptime s = Some dt" for dt
    using that assms sid by (simp add: update_license_def)
  have exn: "update_license strptime (Some e) u d sid (Some s) = (d, Unhandled e)"
    if "s \<noteq> []" "strptime s = Some dt" for dt e
    using that assms by (simp add: update_license_def)
  have ign: "update_license strptime c u d sid (Some s) = (d, Redirect ''superadmin_dashboard'')"
    if "s = [] \<or> strptime s = None" for c
    using that assms by (auto simp: update_license_def)
  have none: "update_license strptime c u d sid None = (d, Redirect ''superadmin_dashboard'')"
    for c
    using assms by (simp add: update_license_def)
  show ?thesis
    using ign by (auto simp: set exn none find_set_license[OF assms(2)] set_license_others)
qed

theorem update_license_sets_or_ignores_witness:
  "role root = ''superadmin'' \<and>
   find (\<lambda>s. st_id s = 2) (stores shop) =
     Some \<lparr>st_id = 2, st_name = ''Annex'', st_location = None,
            license_validity = Date 2030 1 1\<rparr> \<and>
   ''2031-05-17'' \<noteq> [] \<and> iso_date ''2031-05-17'' = Some (Date 2031 5 17) \<and>
   find (\<lambda>s. st_id s = 2)
       (stores (fst (update_license iso_date None root shop 2 (Some ''2031-05-17''))))
     = Some \<lparr>st_id = 2, st_name = ''Annex'', st_location = None,
              license_validity = Date 2031 5 17\<rparr> \<and>
   update_license iso_date (Some (DbError ''locked'')) root shop 2 (Some ''2031-05-17'')
     = (shop, Unhandled (DbError ''locked'')) \<and>
   iso_date ''17/05/2031'' = None \<and>
   update_license iso_date None root shop 2 (Some ''17/05/2031'')
     = (shop, Redirect ''superadmin_dashboard'')"
proof -
  have h1: "role root = ''superadmin''"
    by (simp add: root_def)
  have h2: "find (\<lambda>s. st_id s = 2) (stores shop) =
     Some \<lparr>st_id = 2, st_name = ''Annex'', st_location = None,
            license_validity = Date 2030 1 1\<rparr>"
    by (simp add: shop_def)
  have p1: "''2031-05-17'' \<noteq> []" by simp
  have p2: "iso_date ''2031-05-17'' = Some (Date 2031 5 17)"
    by (simp add: iso_date_def digit_val_def days_in_def)
  have p3: "iso_date ''17/05/2031'' = None"
    by (simp add: iso_date_def)
  note t1 = update_license_sets_or_ignores[OF h1 h2, of "''2031-05-17''" iso_date]
  note t2 = update_license_sets_or_ignores[OF h1 h2, of "''17/05/2031''" iso_date]
  note a = mp[OF mp[OF spec[OF conjunct1[OF t1]] p1] p2]
  have a': "find (\<lambda>s. st_id s = 2)
      (stores (fst (update_license iso_date None root shop 2 (Some ''2031-05-17''))))
     = Some \<lparr>st_id = 2, st_name = ''Annex'', st_location = None,
              license_validity = Date 2031 5 17\<rparr>"
    unfolding conjunct1[OF conjunct2[OF a]] by simp
  have e: "update_license iso_date (Some (DbError ''locked'')) root shop 2 (Some ''2031-05-17'')
     = (shop, Unhandled (DbError ''locked''))"
    using a by (elim conjE) (erule allE)
  note b = spec[OF mp[OF conjunct1[OF conjunct2[OF t2]] disjI2[OF p3]], of None]
  show ?thesis
    by (intro conjI h1 h2 p1 p2 p3 a' e b)
qed

section \<open>Order of the lines\<close>

lemma lines_ok_store:
  assumes "lines_ok u d [] items" "items \<noteq> []"
  shows "\<exists>st. u_store_id u = Some st"
proof -
  from assms(2) obtain it where "it \<in> set items"
    by (cases items) auto
  from lines_ok_resolved[OF assms(1) this] obtain p where
    "query_product d (item_id it) (u_store_id u) = Some p" by blast
  from query_product_SomeD[OF this] have "Some (p_store_id p) = u_store_id u" by simp
  then show ?thesis by metis
qed

text \<open>
  C6. The lines of a bill are checked in input order, each against the stock that the
  earlier lines of the same bill have left. With no exception of the storage layer, the
  request of a store user succeeds exactly when every line names a product of the store
  and asks for no more than the product's stock before the bill less what the lines before
  it asked of that product. The first line that asks for more ends the request with the
  rejection that names its product, whatever lines follow, and nothing is written. So a
  bill that names a product and requests of it, over all its lines, more than the stock
  before the bill does not succeed and changes nothing.
\<close>

theorem bill_lines_in_order:
  assumes "distinct (map p_id (products d))"
  shows "(role u = ''store'' \<longrightarrow> items \<noteq> [] \<longrightarrow> (\<forall>k\<le>length items. raises k = None) \<longrightarrow>
            ((\<exists>n. snd (process_bill ops now raises u d items) = Json_success n)
               \<longleftrightarrow> lines_ok u d [] items)) \<and>
         (role u = ''store'' \<longrightarrow> lines_ok u d [] pre \<longrightarrow> (\<forall>k\<le>length pre. raises k = None) \<longrightarrow>
            (\<forall>q. query_product d (item_id it) (u_store_id u) = Some q \<longrightarrow>
               stock_quantity q - requested (item_id it) pre < item_quantity it \<longrightarrow>
               process_bill ops now raises u d (pre @ it # rest) =
                 (d, Json_failure (''Not enough stock for '' @ p_name q) 400))) \<and>
         (query_product d pid (u_store_id u) = Some p \<longrightarrow> pid \<in> item_id ` set items \<longrightarrow>
          stock_quantity p < requested pid items \<longrightarrow>
          fst (process_bill ops now raises u d items) = d \<and>
          (\<forall>n. snd (process_bill ops now raises u d items) \<noteq> Json_success n))"
proof (intro conjI impI allI)
  assume r: "role u = ''store''" and ne: "items \<noteq> []"
    and nf: "\<forall>k\<le>length items. raises k = None"
  define res where "res = process_bill ops now raises u d items"
  have "(\<exists>n. snd res = Json_success n) \<longleftrightarrow> lines_ok u d [] items"
  proof
    assume "\<exists>n. snd res = Json_success n"
    then obtain n where "snd res = Json_success n" ..
    then have "process_bill ops now raises u d items = (fst res, Json_success n)"
      unfolding res_def[symmetric] by (cases res) simp
    from process_bill_success[OF assms this] show "lines_ok u d [] items"
      by (elim conjE)
  next
    assume ok: "lines_ok u d [] items"
    from lines_ok_store[OF ok ne] obtain st where st: "u_store_id u = Some st" ..
    from process_bill_runs[OF assms r ne st nf ok, of ops now] obtain d' where
      "res = (d', Json_success (next_id (map s_id (sales d))))"
      unfolding res_def by blast
    then have "snd res = Json_success (next_id (map s_id (sales d)))" by simp
    then show "\<exists>n. snd res = Json_success n" ..
  qed
  then show "(\<exists>n. snd (process_bill ops now raises u d items) = Json_success n)
               \<longleftrightarrow> lines_ok u d [] items"
    unfolding res_def .
next
  fix q
  assume r: "role u = ''store''" and ok: "lines_ok u d [] pre"
    and nf: "\<forall>k\<le>length pre. raises k = None"
    and q: "query_product d (item_id it) (u_store_id u) = Some q"
    and less: "stock_quantity q - requested (item_id it) pre < item_quantity it"
  from query_product_SomeD[OF q] have st: "u_store_id u = Some (p_store_id q)" by simp
  from less have less': "stock_quantity q < requested (item_id it) pre + item_quantity it"
    by simp
  show "process_bill ops now raises u d (pre @ it # rest) =
                 (d, Json_failure (''Not enough stock for '' @ p_name q) 400)"
    by (rule process_bill_rejects[OF assms r st ok nf]) (rule bill_line_rejects(2)[OF _ q less'])
next
  assume q: "query_product d pid (u_store_id u) = Some p" and m: "pid \<in> item_id ` set items"
    and less: "stock_quantity p < requested pid items"
  define r where "r = process_bill ops now raises u d items"
  have ns: "\<forall>n. snd r \<noteq> Json_success n"
  proof (intro allI notI)
    fix n assume "snd r = Json_success n"
    then have "process_bill ops now raises u d items = (fst r, Json_success n)"
      unfolding r_def[symmetric] by (cases r) simp
    from process_bill_success[OF assms this] have "lines_ok u d [] items"
      by (elim conjE)
    from lines_ok_requested[OF this m q] less show False by simp
  qed
  then have "fst r = d"
    unfolding r_def by (rule process_bill_not_success)
  then show "fst (process_bill ops now raises u d items) = d"
    unfolding r_def .
  from ns show "snd (process_bill ops now raises u d items) \<noteq> Json_success n" for n
    unfolding r_def by simp
qed

theorem bill_lines_in_order_witness:
  "distinct (map p_id (products shop)) \<and> role till = ''store'' \<and>
   three_lines \<noteq> [] \<and> \<not> (\<exists>k\<le>length three_lines. no_fault k \<noteq> None) \<and>
   lines_ok till shop [] three_lines \<and>
   (\<exists>n. snd (process_bill exact_ops 7 no_fault till shop three_lines) = Json_success n) \<and>
   twice \<noteq> [] \<and> \<not> (\<exists>k\<le>length twice. no_fault k \<noteq> None) \<and>
   \<not> lines_ok till shop [] twice \<and>
   \<not> (\<exists>n. snd (process_bill exact_ops 7 no_fault till shop twice) = Json_success n) \<and>
   lines_ok till shop [] [line 1 3] \<and> \<not> (\<exists>k\<le>length [line 1 3]. no_fault k \<noteq> None) \<and>
   query_product shop (item_id (line 1 3)) (u_store_id till) = Some rum \<and>
   stock_quantity rum - requested (item_id (line 1 3)) [line 1 3] < item_quantity (line 1 3) \<and>
   process_bill exact_ops 7 no_fault till shop ([line 1 3] @ line 1 3 # [line 2 1]) =
     (shop, Json_failure ''Not enough stock for Rum'' 400) \<and>
   query_product shop 1 (u_store_id till) = Some rum \<and>
   1 \<in> item_id ` set twice \<and> stock_quantity rum < requested 1 twice \<and>
   fst (process_bill exact_ops 7 no_fault till shop twice) = shop"
proof -
  have r: "role till = ''store''"
    by (simp add: till_def)
  have ne3: "three_lines \<noteq> []" and ne2: "twice \<noteq> []"
    by (simp_all add: three_lines_def twice_def)
  have nf3: "\<forall>k\<le>length three_lines. no_fault k = None"
    and nf2: "\<forall>k\<le>length twice. no_fault k = None"
    and nf1: "\<forall>k\<le>length [line 1 3]. no_fault k = None"
    by (simp_all add: no_fault_def)
  have nf3': "\<not> (\<exists>k\<le>length three_lines. no_fault k \<noteq> None)"
    and nf2': "\<not> (\<exists>k\<le>length twice. no_fault k \<noteq> None)"
    and nf1': "\<not> (\<exists>k\<le>length [line 1 3]. no_fault k \<noteq> None)"
    by (simp_all add: no_fault_def)
  have ok3: "lines_ok till shop [] three_lines"
    by (simp add: query_product_def requested_def shop_def rum_def gin_def vodka_def till_def
        line_def three_lines_def)
  have ok2: "\<not> lines_ok till shop [] twice"
    by (simp add: query_product_def requested_def shop_def rum_def gin_def vodka_def till_def
        line_def twice_def)
  have ok1: "lines_ok till shop [] [line 1 3]"
    by (simp add: query_product_def requested_def shop_def rum_def gin_def vodka_def till_def
        line_def)
  have q: "query_product shop 1 (u_store_id till) = Some rum"
    by (simp add: query_product_def shop_def till_def rum_def)
  have q1: "query_product shop (item_id (line 1 3)) (u_store_id till) = Some rum"
    by (simp add: query_product_def shop_def till_def rum_def line_def)
  have less1: "stock_quantity rum - requested (item_id (line 1 3)) [line 1 3]
      < item_quantity (line 1 3)"
    by (simp add: requested_def rum_def line_def)
  have m: "1 \<in> item_id ` set twice"
    by (simp add: twice_def line_def)
  have less: "stock_quantity rum < requested 1 twice"
    by (simp add: requested_def twice_def line_def rum_def)
  note t3 = bill_lines_in_order[OF shop_distinct, of till three_lines no_fault exact_ops 7]
  note t2 = bill_lines_in_order[OF shop_distinct, of till twice no_fault exact_ops 7
      "[line 1 3]" "line 1 3" "[line 2 1]" 1 rum]
  note i3 = mp[OF mp[OF mp[OF conjunct1[OF t3] r] ne3] nf3]
  note i2 = mp[OF mp[OF mp[OF conjunct1[OF t2] r] ne2] nf2]
  have a: "\<exists>n. snd (process_bill exact_ops 7 no_fault till shop three_lines) = Json_success n"
    by (rule iffD2[OF i3 ok3])
  have b: "\<not> (\<exists>n. snd (process_bill exact_ops 7 no_fault till shop twice) = Json_success n)"
    by (rule contrapos_nn[OF ok2 iffD1[OF i2]])
  have c: "process_bill exact_ops 7 no_fault till shop ([line 1 3] @ line 1 3 # [line 2 1]) =
     (shop, Json_failure (''Not enough stock for '' @ p_name rum) 400)"
    by (rule mp[OF mp[OF spec[OF mp[OF mp[OF mp[OF conjunct1[OF conjunct2[OF t2]] r] ok1] nf1]]
          q1] less1])
  have c': "process_bill exact_ops 7 no_fault till shop ([line 1 3] @ line 1 3 # [line 2 1]) =
     (shop, Json_failure ''Not enough stock for Rum'' 400)"
    unfolding c by (simp add: rum_def)
  have e: "fst (process_bill exact_ops 7 no_fault till shop twice) = shop \<and>
   (\<forall>n. snd (process_bill exact_ops 7 no_fault till shop twice) \<noteq> Json_success n)"
    by (rule mp[OF mp[OF mp[OF conjunct2[OF conjunct2[OF t2]] q] m] less])
  show ?thesis
    by (intro conjI shop_distinct r ne3 ne2 nf3' nf2' nf1' ok3 ok2 ok1 a b q1 less1 c' q m less
        conjunct1[OF e])
qed

section \<open>Quantities of any sign\<close>





section \<open>Isolation of stores\<close>

lemma filter_map_same:
  "(\<And>x. x \<in> set xs \<Longrightarrow> P (g x) = P x) \<Longrightarrow> (\<And>x. x \<in> set xs \<Longrightarrow> P x \<Longrightarrow> g x = x) \<Longrightarrow>
     filter P (map g xs) = filter P xs"
  by (induction xs) auto

lemma rows_of_store_same:
  assumes "store_products b d' = store_products b d"
      and "store_sales b d' = store_sales b d"
      and "sale_items d' = sale_items d @ new"
      and "\<And>i. i \<in> set new \<Longrightarrow> sale_id i \<notin> s_id ` set (store_sales b d) \<and>
                                 product_id i \<notin> p_id ` set (store_products b d)"
  shows "rows_of_store b d' = rows_of_store b d"
proof -
  have "filter (\<lambda>i. sale_id i \<in> s_id ` set (store_sales b d) \<or>
                 product_id i \<in> p_id ` set (store_products b d)) new = []"
    using assms(4) by (auto simp: filter_empty_conv)
  then show ?thesis
    by (simp add: rows_of_store_def store_sale_items_def assms(1,2,3))
qed

lemma other_store_id:
  assumes "distinct (map p_id (products d))"
      and "query_product d pid (Some a) = Some r" and "a \<noteq> b"
      and "p \<in> set (store_products b d)"
  shows "p_id p \<noteq> pid"
proof
  assume eq: "p_id p = pid"
  from assms(4) have p: "p \<in> set (products d)" "p_store_id p = b"
    by (simp_all add: store_products_def)
  from query_product_SomeD[OF assms(2)] have r: "r \<in> set (products d)" "p_id r = pid"
    "p_store_id r = a" by simp_all
  from distinct_ids_eq[OF assms(1) p(1) r(1)] eq r(2) have "p = r" by simp
  with p(2) r(3) assms(3) show False by simp
qed

lemma update_stock_isolated:
  assumes "u_store_id u = Some a" and "a \<noteq> b" and "distinct (map p_id (products d))"
  shows "rows_of_store b (fst (update_stock c u d pid n)) = rows_of_store b d \<and>
         stores (fst (update_stock c u d pid n)) = stores d"
proof (cases "role u = ''store'' \<and> 0 < n \<and> c = None")
  case False
  then have "fst (update_stock c u d pid n) = d"
    by (cases c; cases "query_product d pid (u_store_id u)") (auto simp: update_stock_def)
  then show ?thesis by simp
next
  case True
  show ?thesis
  proof (cases "query_product d pid (Some a)")
    case None
    then have "fst (update_stock c u d pid n) = d"
      using assms(1) by (simp add: update_stock_def)
    then show ?thesis by simp
  next
    case (Some r)
    from query_product_SomeD[OF Some] have rid: "p_id r = pid" by simp
    define d' where "d' = d\<lparr>products := set_stock pid (stock_quantity r + n) (products d)\<rparr>"
    have run: "fst (update_stock c u d pid n) = d'"
      using True Some assms(1) rid by (simp add: update_stock_def d'_def)
    have "filter (\<lambda>p. p_store_id p = b)
            (map (\<lambda>p. if p_id p = pid then p\<lparr>stock_quantity := stock_quantity r + n\<rparr> else p)
               (products d))
          = filter (\<lambda>p. p_store_id p = b) (products d)"
    proof (rule filter_map_same)
      fix x assume "x \<in> set (products d)"
      show "(p_store_id (if p_id x = pid then x\<lparr>stock_quantity := stock_quantity r + n\<rparr> else x) = b)
          = (p_store_id x = b)" by simp
    next
      fix x assume "x \<in> set (products d)" "p_store_id x = b"
      then have "x \<in> set (store_products b d)" by (simp add: store_products_def)
      from other_store_id[OF assms(3) Some assms(2) this]
      show "(if p_id x = pid then x\<lparr>stock_quantity := stock_quantity r + n\<rparr> else x) = x"
        by simp
    qed
    then have ps: "store_products b d' = store_products b d"
      by (simp add: store_products_def d'_def set_stock_def)
    have ss: "store_sales b d' = store_sales b d"
      by (simp add: store_sales_def d'_def)
    have si: "sale_items d' = sale_items d @ []"
      by (simp add: d'_def)
    have "rows_of_store b d' = rows_of_store b d"
      by (rule rows_of_store_same[OF ps ss si]) simp
    moreover have "stores d' = stores d"
      by (simp add: d'_def)
    ultimately show ?thesis
      unfolding run by simp
  qed
qed

lemma process_bill_isolated:
  assumes "u_store_id u = Some a" and "a \<noteq> b" and "distinct (map p_id (products d))"
  shows "rows_of_store b (fst (process_bill ops now raises u d items)) = rows_of_store b d \<and>
         stores (fst (process_bill ops now raises u d items)) = stores d"
proof -
  define r where "r = process_bill ops now raises u d items"
  have "rows_of_store b (fst r) = rows_of_store b d \<and> stores (fst r) = stores d"
  proof (cases "\<exists>n. snd r = Json_success n")
    case False
    then have "\<forall>n. snd r \<noteq> Json_success n" by simp
    then have "fst r = d"
      unfolding r_def by (rule process_bill_not_success)
    then show ?thesis by simp
  next
    case True
    then obtain sid where "snd r = Json_success sid" ..
    then have eq: "process_bill ops now raises u d items = (fst r, Json_success sid)"
      unfolding r_def[symmetric] by (cases r) simp
    note succ = process_bill_success[OF assms(3) eq]
    from succ have ok: "lines_ok u d [] items" by (elim conjE)
    from succ have sid: "sid = next_id (map s_id (sales d))" by (elim conjE)
    from succ assms(1) obtain new where
      new: "map Some new = map (sale_item_of u d sid) items" and
      d': "fst r = d\<lparr>products := dec items (products d),
                 sales := sales d @ [\<lparr>s_id = sid,
                                       total_amount = f_round2 ops (lines_total ops new),
                                       sale_date = now, s_store_id = a\<rparr>],
                 sale_items := sale_items d @ new\<rparr>"
      by auto
    have resolved: "\<exists>p. query_product d (item_id it) (Some a) = Some p" if "it \<in> set items" for it
      using lines_ok_resolved[OF ok that] assms(1) by simp
    have untouched: "requested (p_id x) items = 0" if x: "x \<in> set (store_products b d)" for x
    proof (rule requested_notin, rule notI)
      assume "p_id x \<in> item_id ` set items"
      then obtain it where it: "it \<in> set items" "item_id it = p_id x" by auto
      from resolved[OF it(1)] obtain p where "query_product d (item_id it) (Some a) = Some p" ..
      from other_store_id[OF assms(3) this assms(2) x] it(2) show False by simp
    qed
    have "filter (\<lambda>p. p_store_id p = b)
            (map (\<lambda>p. p\<lparr>stock_quantity := stock_quantity p - requested (p_id p) items\<rparr>)
               (products d))
          = filter (\<lambda>p. p_store_id p = b) (products d)"
    proof (rule filter_map_same)
      fix x assume "x \<in> set (products d)"
      show "(p_store_id (x\<lparr>stock_quantity := stock_quantity x - requested (p_id x) items\<rparr>) = b)
          = (p_store_id x = b)" by simp
    next
      fix x assume "x \<in> set (products d)" "p_store_id x = b"
      then have "x \<in> set (store_products b d)" by (simp add: store_products_def)
      from untouched[OF this]
      show "x\<lparr>stock_quantity := stock_quantity x - requested (p_id x) items\<rparr> = x"
        by simp
    qed
    then have ps: "store_products b (fst r) = store_products b d"
      by (simp add: store_products_def d' dec_def)
    have ss: "store_sales b (fst r) = store_sales b d"
      using assms(2) by (simp add: store_sales_def d')
    have si: "sale_items (fst r) = sale_items d @ new"
      by (simp add: d')
    have fresh: "sid \<notin> s_id ` set (sales d)"
      using next_id_fresh[of "map s_id (sales d)"] by (simp add: sid)
    have foreign: "sale_id i \<notin> s_id ` set (store_sales b d) \<and>
                   product_id i \<notin> p_id ` set (store_products b d)" if i: "i \<in> set new" for i
    proof -
      from i have "Some i \<in> set (map Some new)" by simp
      then have "Some i \<in> set (map (sale_item_of u d sid) items)"
        unfolding new .
      then obtain it where it: "it \<in> set items" "sale_item_of u d sid it = Some i"
        by auto
      from resolved[OF it(1)] obtain p where q: "query_product d (item_id it) (Some a) = Some p" ..
      from it(2) q assms(1) have i_eq: "sale_id i = sid" "product_id i = p_id p"
        by (auto simp: sale_item_of_def)
      from query_product_SomeD[OF q] have pid: "p_id p = item_id it" by simp
      have "sale_id i \<notin> s_id ` set (store_sales b d)"
        using fresh by (auto simp: i_eq store_sales_def)
      moreover have "product_id i \<notin> p_id ` set (store_products b d)"
      proof
        assume "product_id i \<in> p_id ` set (store_products b d)"
        then obtain x where x: "x \<in> set (store_products b d)" "p_id x = item_id it"
          unfolding i_eq pid by auto
        from other_store_id[OF assms(3) q assms(2) x(1)] x(2) show False by simp
      qed
      ultimately show ?thesis by simp
    qed
    have "rows_of_store b (fst r) = rows_of_store b d"
      by (rule rows_of_store_same[OF ps ss si foreign])
    moreover have "stores (fst r) = stores d"
      by (simp add: d')
    ultimately show ?thesis by simp
  qed
  then show ?thesis unfolding r_def .
qed

lemma get_products_isolated:
  assumes "u_store_id u = Some a" and "a \<noteq> b" and "distinct (map p_id (products d))"
      and "get_products u d = Json_products ps" and "p \<in> set (store_products b d)"
  shows "to_dict p \<notin> set ps"
proof
  assume m: "to_dict p \<in> set ps"
  from assms(4) have "ps = map to_dict
      (filter (\<lambda>p. Some (p_store_id p) = u_store_id u \<and> stock_quantity p > 0) (products d))"
    by (simp add: get_products_def split: if_splits)
  with m assms(1) obtain r where r: "r \<in> set (products d)" "p_store_id r = a"
    "to_dict r = to_dict p"
    by auto
  from r(3) have "p_id r = p_id p"
    by (simp add: to_dict_def)
  moreover from assms(5) have p: "p \<in> set (products d)" "p_store_id p = b"
    by (simp_all add: store_products_def)
  ultimately have "r = p"
    using distinct_ids_eq[OF assms(3) r(1) p(1)] by simp
  with r(2) p(2) assms(2) show False by simp
qed

lemma store_products_disjoint:
  "a \<noteq> b \<Longrightarrow> set rows \<subseteq> set (store_products a d) \<Longrightarrow> set rows \<inter> set (store_products b d) = {}"
  by (auto simp: store_products_def)

lemma store_sales_disjoint:
  "a \<noteq> b \<Longrightarrow> set rows \<subseteq> set (store_sales a d) \<Longrightarrow> set rows \<inter> set (store_sales b d) = {}"
  by (auto simp: store_sales_def)

lemma get_products_own:
  assumes "u_store_id u = Some a" and "get_products u d = Json_products ps"
  shows "\<exists>rows. ps = map to_dict rows \<and> set rows \<subseteq> set (store_products a d)"
proof -
  from assms have "ps = map to_dict
      (filter (\<lambda>p. p_store_id p = a \<and> stock_quantity p > 0) (products d))"
    by (simp add: get_products_def split: if_splits)
  moreover have "set (filter (\<lambda>p. p_store_id p = a \<and> stock_quantity p > 0) (products d))
      \<subseteq> set (store_products a d)"
    by (auto simp: store_products_def)
  ultimately show ?thesis by blast
qed

lemma dashboard_own:
  assumes "u_store_id u = Some a" and "snd (dashboard u d GET form) = Render_dashboard rows"
  shows "set rows \<subseteq> set (store_products a d)"
proof -
  from assms have "rows = sort_key p_name (filter (\<lambda>p. p_store_id p = a) (products d))"
    by (simp add: dashboard_def split: if_splits)
  then show ?thesis
    by (simp add: store_products_def)
qed

lemma sales_route_own:
  assumes "u_store_id u = Some a" and "sales_route u d = Render_sales rows nm"
  shows "set rows \<subseteq> set (store_sales a d) \<and> (\<exists>s\<in>set (stores d). st_id s = a \<and> nm = st_name s)"
proof -
  from assms obtain s where
    f: "find (\<lambda>s. st_id s = a) (stores d) = Some s" and
    rows: "rows = rev (sort_key sale_date (filter (\<lambda>s. s_store_id s = a) (sales d)))" and
    nm: "nm = st_name s"
    by (auto simp: sales_route_def Let_def split: if_splits option.splits)
  from f have "s \<in> set (stores d)" "st_id s = a"
    by (auto simp: find_Some_iff)
  with nm rows show ?thesis
    by (auto simp: store_sales_def)
qed

text \<open>
  C5. Let the user \<open>u\<close> belong to the store \<open>a\<close>, and let \<open>b\<close> be another store. The
  product listings (the API and the dashboard page) return rows of \<open>a\<close> only and no row of
  \<open>b\<close>; the sales listing returns sales of \<open>a\<close> only, with the name of the store \<open>a\<close>;
  a stock update and a bill leave every row of \<open>b\<close> as it was: its products, its sales,
  the sale items of its sales and of its products. Product ids are a primary key.
\<close>

theorem store_isolation:
  assumes "u_store_id u = Some a" and "a \<noteq> b" and "distinct (map p_id (products d))"
  shows "(\<forall>ps. get_products u d = Json_products ps \<longrightarrow>
            (\<exists>rows. ps = map to_dict rows \<and> set rows \<subseteq> set (store_products a d)) \<and>
            (\<forall>p\<in>set (store_products b d). to_dict p \<notin> set ps)) \<and>
         (\<forall>form rows. snd (dashboard u d GET form) = Render_dashboard rows \<longrightarrow>
            set rows \<subseteq> set (store_products a d) \<and>
            set rows \<inter> set (store_products b d) = {}) \<and>
         (\<forall>rows nm. sales_route u d = Render_sales rows nm \<longrightarrow>
            set rows \<subseteq> set (store_sales a d) \<and> set rows \<inter> set (store_sales b d) = {} \<and>
            (\<exists>s\<in>set (stores d). st_id s = a \<and> nm = st_name s)) \<and>
         (\<forall>c pid n. rows_of_store b (fst (update_stock c u d pid n)) = rows_of_store b d \<and>
            stores (fst (update_stock c u d pid n)) = stores d) \<and>
         rows_of_store b (fst (process_bill ops now raises u d items)) = rows_of_store b d \<and>
         stores (fst (process_bill ops now raises u d items)) = stores d"
proof (intro conjI allI impI ballI)
  fix ps assume g: "get_products u d = Json_products ps"
  show "\<exists>rows. ps = map to_dict rows \<and> set rows \<subseteq> set (store_products a d)"
    by (rule get_products_own[OF assms(1) g])
  show "to_dict p \<notin> set ps" if "p \<in> set (store_products b d)" for p
    by (rule get_products_isolated[OF assms g that])
next
  fix form rows assume r: "snd (dashboard u d GET form) = Render_dashboard rows"
  show own: "set rows \<subseteq> set (store_products a d)"
    by (rule dashboard_own[OF assms(1) r])
  show "set rows \<inter> set (store_products b d) = {}"
    by (rule store_products_disjoint[OF assms(2) own])
next
  fix rows nm assume r: "sales_route u d = Render_sales rows nm"
  note own = sales_route_own[OF assms(1) r]
  show "set rows \<subseteq> set (store_sales a d)"
    by (rule conjunct1[OF own])
  show "set rows \<inter> set (store_sales b d) = {}"
    by (rule store_sales_disjoint[OF assms(2) conjunct1[OF own]])
  show "\<exists>s\<in>set (stores d). st_id s = a \<and> nm = st_name s"
    by (rule conjunct2[OF own])
next
  fix c pid n
  show "rows_of_store b (fst (update_stock c u d pid n)) = rows_of_store b d"
    by (rule conjunct1[OF update_stock_isolated[OF assms]])
  show "stores (fst (update_stock c u d pid n)) = stores d"
    by (rule conjunct2[OF update_stock_isolated[OF assms]])
next
  show "rows_of_store b (fst (process_bill ops now raises u d items)) = rows_of_store b d"
    by (rule conjunct1[OF process_bill_isolated[OF assms]])
  show "stores (fst (process_bill ops now raises u d items)) = stores d"
    by (rule conjunct2[OF process_bill_isolated[OF assms]])
qed

theorem store_isolation_witness:
  "u_store_id till = Some 1 \<and> u_store_id manager = Some 1 \<and> (1::int) \<noteq> 2 \<and>
   distinct (map p_id (products ledger)) \<and>
   store_products 2 ledger = [vodka] \<and>
   get_products till ledger = Json_products [to_dict rum, to_dict gin] \<and>
   to_dict vodka \<notin> set [to_dict rum, to_dict gin] \<and>
   sales_route manager ledger =
     Render_sales [\<lparr>s_id = 2, total_amount = 20, sale_date = 200, s_store_id = 1\<rparr>] ''Main'' \<and>
   set [\<lparr>s_id = 2, total_amount = 20, sale_date = 200, s_store_id = 1\<rparr>]
     \<inter> set (store_sales 2 ledger) = {} \<and>
   snd (update_stock None till ledger 1 6) = Redirect ''dashboard'' \<and>
   rows_of_store 2 (fst (update_stock None till ledger 1 6)) = rows_of_store 2 ledger \<and>
   update_stock None till ledger 3 6 = (ledger, Abort 404) \<and>
   snd (process_bill exact_ops 7 no_fault till ledger two_lines) = Json_success 3 \<and>
   rows_of_store 2 (fst (process_bill exact_ops 7 no_fault till ledger two_lines))
     = rows_of_store 2 ledger \<and>
   snd (process_bill exact_ops 7 no_fault till ledger [line 3 1])
     = Json_failure ''Not enough stock for ID 3'' 400"
proof -
  have h1: "u_store_id till = Some 1" and h1': "u_store_id manager = Some 1"
    by (simp_all add: till_def manager_def)
  have h2: "(1::int) \<noteq> 2" by simp
  have h3: "distinct (map p_id (products ledger))"
    by (simp add: ledger_def shop_def rum_def gin_def vodka_def)
  have sp: "store_products 2 ledger = [vodka]"
    by (simp add: store_products_def ledger_def shop_def rum_def gin_def vodka_def)
  have g: "get_products till ledger = Json_products [to_dict rum, to_dict gin]"
    by (simp add: get_products_def ledger_def shop_def till_def rum_def gin_def vodka_def)
  have sr: "sales_route manager ledger =
     Render_sales [\<lparr>s_id = 2, total_amount = 20, sale_date = 200, s_store_id = 1\<rparr>] ''Main''"
    by (simp add: sales_route_def ledger_def shop_def manager_def Let_def)
  have us: "snd (update_stock None till ledger 1 6) = Redirect ''dashboard''"
    by (simp add: update_stock_def query_product_def ledger_def shop_def till_def rum_def)
  have us3: "update_stock None till ledger 3 6 = (ledger, Abort 404)"
    by (simp add: update_stock_def query_product_def ledger_def shop_def till_def rum_def
        gin_def vodka_def)
  have pb: "snd (process_bill exact_ops 7 no_fault till ledger two_lines) = Json_success 3"
    by (simp add: process_bill_def bill_line_def query_product_def set_stock_def set_total_def
        next_id_def ledger_def shop_def till_def rum_def gin_def vodka_def line_def no_fault_def
        exact_ops_def round_half_even_def two_lines_def Let_def)
  have pb3: "snd (process_bill exact_ops 7 no_fault till ledger [line 3 1])
     = Json_failure ''Not enough stock for ID 3'' 400"
    by (simp add: process_bill_def bill_line_def query_product_def next_id_def ledger_def
        shop_def till_def rum_def gin_def vodka_def line_def no_fault_def exact_ops_def
        str_int_def digit_char_def Let_def)
  note t = store_isolation[OF h1 h2 h3, of exact_ops 7 no_fault two_lines]
  note m = store_isolation[OF h1' h2 h3, of exact_ops 7 no_fault two_lines]
  have v: "vodka \<in> set (store_products 2 ledger)"
    unfolding sp by simp
  have a: "to_dict vodka \<notin> set [to_dict rum, to_dict gin]"
    by (rule bspec[OF conjunct2[OF mp[OF spec[OF conjunct1[OF t]] g]] v])
  have b: "set [\<lparr>s_id = 2, total_amount = 20, sale_date = 200, s_store_id = 1\<rparr>]
     \<inter> set (store_sales 2 ledger) = {}"
    using mp[OF spec[OF spec[OF conjunct1[OF conjunct2[OF conjunct2[OF m]]]]] sr]
    by (elim conjE)
  note w = conjunct2[OF conjunct2[OF conjunct2[OF t]]]
  have c: "rows_of_store 2 (fst (update_stock None till ledger 1 6)) = rows_of_store 2 ledger"
    using conjunct1[OF w] by (elim allE conjE)
  have e: "rows_of_store 2 (fst (process_bill exact_ops 7 no_fault till ledger two_lines))
     = rows_of_store 2 ledger"
    by (rule conjunct1[OF conjunct2[OF w]])
  show ?thesis
    by (intro conjI h1 h1' h2 h3 sp g a sr b us c us3 pb e pb3)
qed

end
